theory Spec2Isabelle
  imports Complex_Main "HOL-Library.AList" "HOL-Library.Log_Nat" "HOL-Library.Stream"
begin

section \<open>The rendering core of \<open>dashboard/bin/run.py\<close>\<close>

text \<open>
  Conventions of the embedding.
  \<^item> Python numbers (the JSON readings, the pixel sizes mixed with them by true division)
    are real numbers in the model of the whole pipeline, where only the order of the
    numbers and the zero test of a divisor matter. The arithmetic of \<open>normalise\<close> itself is
    given a second time with the rounding of binary floating point (\<open>fl_normalise\<close>).
  \<^item> A Python \<open>dict\<close> with string keys is an association list in insertion order whose keys
    are pairwise distinct (\<open>is_dict\<close>); membership is membership in the key list, lookup is
    \<open>map_of\<close>, iteration follows the list.
  \<^item> Every exception the code can raise is a value of \<open>error\<close>; a computation returns
    \<open>error + 'a\<close> with \<open>Inl\<close> for the exception.
  \<^item> The module constant \<open>LOGARITHMIC\<close> (\<open>False\<close> in the source) is the parameter \<open>lg\<close>.
\<close>

subsection \<open>Exceptions and sequencing\<close>

datatype error =
    Exception string      \<comment> \<open>\<open>raise Exception(message)\<close>\<close>
  | IndexError            \<comment> \<open>list index out of range\<close>
  | KeyError              \<comment> \<open>missing dictionary key\<close>
  | ValueError            \<comment> \<open>\<open>min()\<close>/\<open>max()\<close> of nothing, \<open>math.log\<close> outside its domain\<close>
  | ZeroDivisionError     \<comment> \<open>\<open>/\<close> with a zero divisor\<close>

definition bindE :: "error + 'a \<Rightarrow> ('a \<Rightarrow> error + 'b) \<Rightarrow> error + 'b" where
  "bindE m f = (case m of Inl e \<Rightarrow> Inl e | Inr x \<Rightarrow> f x)"

text \<open>A comprehension whose body may raise: left to right, the first exception wins.\<close>

fun mapE :: "('a \<Rightarrow> error + 'b) \<Rightarrow> 'a list \<Rightarrow> error + 'b list" where
  "mapE f [] = Inr []"
| "mapE f (x # xs) = bindE (f x) (\<lambda>y. bindE (mapE f xs) (\<lambda>ys. Inr (y # ys)))"

definition index :: "'a list \<Rightarrow> nat \<Rightarrow> error + 'a" where
  \<comment> \<open>\<open>xs[i]\<close> for a non-negative \<open>i\<close>\<close>
  "index xs i = (if i < length xs then Inr (xs ! i) else Inl IndexError)"

subsection \<open>Data model\<close>

record Region =
  min_x :: real
  min_y :: real
  max_x :: real
  max_y :: real

type_synonym point = "real \<times> real"

type_synonym snapshot = "(string \<times> point list) list"

definition is_dict :: "('k \<times> 'v) list \<Rightarrow> bool" where
  "is_dict d = distinct (map fst d)"

text \<open>\<open>d[k] = v\<close>: an existing key keeps its position, a new key goes to the end.\<close>

definition dict_set :: "('k \<times> 'v) list \<Rightarrow> 'k \<times> 'v \<Rightarrow> ('k \<times> 'v) list" where
  "dict_set d kv = AList.update (fst kv) (snd kv) d"

definition dict_of :: "('k \<times> 'v) list \<Rightarrow> ('k \<times> 'v) list" where
  \<comment> \<open>\<open>{a: b for a, b in pairs}\<close>\<close>
  "dict_of pairs = foldl dict_set [] pairs"

definition dict_get :: "('k \<times> 'v) list \<Rightarrow> 'k \<Rightarrow> error + 'v" where
  \<comment> \<open>\<open>d[k]\<close>\<close>
  "dict_get d k = (case map_of d k of None \<Rightarrow> Inl KeyError | Some v \<Rightarrow> Inr v)"

text \<open>The parsed JSON payload \<open>{"labels": [...], "data": [[...], ...]}\<close>.\<close>

record sensor_json =
  json_labels :: "string list"
  json_data :: "real list list"

subsection \<open>\<open>normalise\<close>, \<open>scale_y\<close>\<close>

definition normalise :: "real \<Rightarrow> real \<Rightarrow> real \<Rightarrow> real \<Rightarrow> real \<Rightarrow> error + real" where
  "normalise val min_val max_val new_min new_max =
     (if max_val - min_val = 0 then Inl ZeroDivisionError
      else Inr (new_min + (val - min_val) * (new_max - new_min) / (max_val - min_val)))"

definition scale_y :: "bool \<Rightarrow> real \<Rightarrow> error + real" where
  \<comment> \<open>\<open>math.log\<close> raises \<open>ValueError\<close> on a non-positive argument\<close>
  "scale_y lg val =
     (if lg then (if val \<le> 0 then Inl ValueError else Inr (ln val)) else Inr val)"

subsection \<open>\<open>normalise\<close> in floating point\<close>

text \<open>
  Line 68 as Python evaluates it on floats: the result of every operation is rounded to
  the nearest number with a significand of 53 bits, ties to the even significand (IEEE 754
  binary64, the format of a Python \<open>float\<close>). Numbers are rationals; a binary64 number is one
  that \<open>fl\<close> leaves unchanged, and an \<open>int\<close> operand below \<open>2 ^ 53\<close> in magnitude is one. The
  exponent is not bounded: overflow to infinity and gradual underflow are left out.
\<close>

definition pow2 :: "int \<Rightarrow> rat" where
  "pow2 e = (if 0 \<le> e then 2 ^ nat e else 1 / 2 ^ nat (- e))"

definition round_half_even :: "rat \<Rightarrow> int" where
  "round_half_even x =
     (let f = \<lfloor>x\<rfloor>; r = x - of_int f in
      if r < 1 / 2 then f else if 1 / 2 < r then f + 1 else if even f then f else f + 1)"

text \<open>The exponent \<open>e\<close> with \<open>2 ^ e \<le> \<bar>x\<bar> < 2 ^ (e + 1)\<close>, for \<open>x \<noteq> 0\<close>.\<close>

definition binade :: "rat \<Rightarrow> int" where
  "binade x =
     (let k = bitlen (fst (quotient_of \<bar>x\<bar>)) - bitlen (snd (quotient_of \<bar>x\<bar>))
      in if pow2 k \<le> \<bar>x\<bar> then k else k - 1)"

definition fl :: "rat \<Rightarrow> rat" where
  "fl x =
     (if x = 0 then 0
      else let e = binade x - 52 in of_int (round_half_even (x / pow2 e)) * pow2 e)"


subsection \<open>\<open>convert_sensor_data\<close>\<close>

definition sensor_point :: "bool \<Rightarrow> nat \<Rightarrow> real list \<Rightarrow> error + point" where
  \<comment> \<open>the body of the inner loop: \<open>x = p[0]; y = scale_y(p[i])\<close>\<close>
  "sensor_point lg i p =
     bindE (index p 0) (\<lambda>x. bindE (index p i) (\<lambda>v. bindE (scale_y lg v) (\<lambda>y. Inr (x, y))))"

definition convert_sensor_data :: "bool \<Rightarrow> sensor_json \<Rightarrow> error + snapshot" where
  "convert_sensor_data lg raw =
     (let label = json_labels raw; sensor_data = json_data raw in
      bindE (index label 0) (\<lambda>l0.
        if l0 \<noteq> ''Time'' then Inl (Exception ''Time not first element'')
        else bindE (index sensor_data 0) (\<lambda>row0.
          let first_len = length row0 in
          if \<not> list_all (\<lambda>sublist. length sublist = first_len) sensor_data
          then Inl (Exception ''Data not all at the same length'')
          else bindE (mapE (\<lambda>i. mapE (sensor_point lg i) sensor_data) [1..<first_len])
                 (\<lambda>points. Inr (dict_of (zip (tl label) points))))))"

subsection \<open>\<open>get_data_region\<close>\<close>

text \<open>
  The built-ins \<open>min\<close> and \<open>max\<close> over an iterable: \<open>ValueError\<close> when it is empty, else a
  scan that replaces the current candidate by a strictly smaller (larger) item.
\<close>

fun py_min :: "real list \<Rightarrow> error + real" where
  "py_min [] = Inl ValueError"
| "py_min (x # xs) = Inr (foldl (\<lambda>m v. if v < m then v else m) x xs)"

fun py_max :: "real list \<Rightarrow> error + real" where
  "py_max [] = Inl ValueError"
| "py_max (x # xs) = Inr (foldl (\<lambda>m v. if v > m then v else m) x xs)"

definition all_points :: "snapshot \<Rightarrow> point list" where
  \<comment> \<open>\<open>[point for points in data.values() for point in points]\<close>\<close>
  "all_points d = concat (map snd d)"

definition get_data_region :: "snapshot \<Rightarrow> error + Region" where
  "get_data_region d =
     (let pts = all_points d in
      bindE (py_min (map fst pts)) (\<lambda>mnx.
      bindE (py_max (map fst pts)) (\<lambda>mxx.
      bindE (py_min (map snd pts)) (\<lambda>mny.
      bindE (py_max (map snd pts)) (\<lambda>mxy.
        Inr \<lparr>min_x = mnx, min_y = mny, max_x = mxx, max_y = mxy\<rparr>)))))"

subsection \<open>\<open>normalise_data\<close>\<close>

definition normalise_point :: "Region \<Rightarrow> Region \<Rightarrow> point \<Rightarrow> error + point" where
  \<comment> \<open>the tuple of the inner comprehension: first the x coordinate, then the y coordinate\<close>
  "normalise_point data_region draw_region p =
     bindE (normalise (fst p) (min_x data_region) (max_x data_region)
              (min_x draw_region) (max_x draw_region)) (\<lambda>nx.
     bindE (normalise (snd p) (min_y data_region) (max_y data_region)
              (min_y draw_region) (max_y draw_region)) (\<lambda>ny. Inr (nx, ny)))"

definition normalise_data :: "snapshot \<Rightarrow> Region \<Rightarrow> Region \<Rightarrow> error + snapshot" where
  "normalise_data d data_region draw_region =
     mapE (\<lambda>kv. bindE (mapE (normalise_point data_region draw_region) (snd kv))
                   (\<lambda>ps. Inr (fst kv, ps))) d"

subsection \<open>The element tree of \<open>xml.etree.ElementTree\<close>\<close>

text \<open>
  Attribute values and element texts are strings assembled from literals and formatted
  numbers. The digits Python prints are not modelled: a piece records which number is
  printed and with which format (\<open>str()\<close> or an empty format specification: \<open>Num\<close>;
  \<open>:0.2f\<close>: \<open>Fixed2\<close>).
\<close>

datatype piece = Lit string | Num real | Fixed2 real

type_synonym ptext = "piece list"

datatype element =
  Element (tag: string) (attrib: "(string \<times> ptext) list") (etext: "ptext option")
    (children: "element list")

fun join_pieces :: "ptext \<Rightarrow> ptext list \<Rightarrow> ptext" where
  \<comment> \<open>\<open>sep.join(items)\<close>\<close>
  "join_pieces sep [] = []"
| "join_pieces sep [x] = x"
| "join_pieces sep (x # y # ys) = x @ sep @ join_pieces sep (y # ys)"

subsection \<open>\<open>generate_svg\<close>\<close>

text \<open>
  \<open>random.choice([True, False])\<close> reads the next element of the stream of coin flips the
  generator will produce; a pinned flag reads nothing (lines 154 to 157).
\<close>

definition resolve_flag :: "bool option \<Rightarrow> bool stream \<Rightarrow> bool \<times> bool stream" where
  "resolve_flag flag rnd = (case flag of None \<Rightarrow> (shd rnd, stl rnd) | Some b \<Rightarrow> (b, rnd))"

text \<open>
  Lines 162 to 164: a filter that names no key of the data is reported on standard output
  and dropped. The first component is what is printed.
\<close>

definition check_source :: "snapshot \<Rightarrow> string option \<Rightarrow> string list \<times> string option" where
  "check_source d only_source =
     (case only_source of
        None \<Rightarrow> ([], None)
      | Some s \<Rightarrow>
          if s \<notin> set (map fst d)
          then ([''Ignoring request to filter non-existent field: '' @ s], None)
          else ([], Some s))"

text \<open>
  Lines 166 to 167 and 188 to 189: \<open>if only_source and <mode>: data = {only_source:
  data[only_source]}\<close>. The condition tests the truth value of \<open>only_source\<close>: \<open>None\<close> and the
  empty string are both false.
\<close>

definition filter_source :: "bool \<Rightarrow> string option \<Rightarrow> snapshot \<Rightarrow> error + snapshot" where
  "filter_source mode only_source d =
     (case only_source of
        None \<Rightarrow> Inr d
      | Some s \<Rightarrow>
          if s \<noteq> [] \<and> mode then bindE (dict_get d s) (\<lambda>points. Inr [(s, points)])
          else Inr d)"

text \<open>Lines 171 to 176.\<close>

definition draw_region_of :: "int \<Rightarrow> int \<Rightarrow> int \<Rightarrow> Region" where
  "draw_region_of width height padding =
     \<lparr>min_x = of_int padding, min_y = of_int padding,
      max_x = of_int (width - padding), max_y = of_int (height - padding)\<rparr>"

text \<open>Lines 200 to 220: the grey rectangle.\<close>

definition highlight_rect :: "bool \<Rightarrow> int \<Rightarrow> Region \<Rightarrow> real \<Rightarrow> element" where
  "highlight_rect invert_highlight height draw_region y_highlight =
     (if invert_highlight then
        Element ''rect''
          [(''x'', [Num (min_x draw_region)]),
           (''y'', [Num (of_int height - y_highlight)]),
           (''width'', [Num (max_x draw_region - min_x draw_region)]),
           (''height'', [Num (y_highlight - min_y draw_region)]),
           (''fill'', [Lit ''grey''])] None []
      else
        Element ''rect''
          [(''x'', [Num (min_x draw_region)]),
           (''y'', [Num (min_y draw_region)]),
           (''width'', [Num (max_x draw_region - min_x draw_region)]),
           (''height'', [Num (max_y draw_region - y_highlight)]),
           (''fill'', [Lit ''grey''])] None [])"

text \<open>Lines 281 to 283: one polyline for every key of the (normalised) data.\<close>

definition point_str :: "int \<Rightarrow> point \<Rightarrow> ptext" where
  "point_str height x = [Fixed2 (fst x), Lit '','', Fixed2 (of_int height - snd x)]"

definition polyline :: "int \<Rightarrow> string \<Rightarrow> point list \<Rightarrow> element" where
  "polyline height foreground points =
     Element ''polyline''
       [(''points'', join_pieces [Lit '' ''] (map (point_str height) points)),
        (''stroke'', [Lit foreground]),
        (''fill'', [Lit ''none'']),
        (''stroke_width'', [Lit ''2''])] None []"

text \<open>
  Lines 191 to 285, the tree handed to \<open>tostring\<close>. The children of the group are listed
  in the order in which \<open>SubElement\<close> appends them.
\<close>

definition svg_tree ::
  "bool \<Rightarrow> int \<Rightarrow> int \<Rightarrow> int \<Rightarrow> string \<Rightarrow> string \<Rightarrow> bool \<Rightarrow> real \<Rightarrow> string option \<Rightarrow> bool \<Rightarrow>
   Region \<Rightarrow> real \<Rightarrow> snapshot \<Rightarrow> element" where
  "svg_tree lg width height padding foreground background invert_highlight highlight_power
     only_source rotate_flag draw_region y_highlight d =
     (let svg_attrib =
            [(''width'', [Num (of_int width)]), (''height'', [Num (of_int height)]),
             (''xmlns'', [Lit ''http://www.w3.org/2000/svg''])];
          svg_attrib' =
            (if rotate_flag
             then dict_set (dict_set svg_attrib (''width'', [Num (of_int height)]))
                    (''height'', [Num (of_int width)])
             else svg_attrib);
          group_attrib =
            (if rotate_flag
             then [(''transform'',
                    [Lit ''translate(0, '', Num (of_int width), Lit '') rotate(-90)''])]
             else []);
          title =
            Element ''text''
              [(''x'', [Lit ''0'']), (''y'', [Lit ''0'']), (''fill'', [Lit foreground]),
               (''transform'',
                [Lit ''translate('', Num (of_int width / 2 - 200), Lit '', '',
                 Num (of_int padding / 2 + 10), Lit '') scale(2)''])]
              (Some (case only_source of
                       None \<Rightarrow> [Lit ''Power consumption'']
                     | Some s \<Rightarrow> [Lit ''Power consumption ('', Lit s, Lit '')'']))
              [];
          x_axis =
            Element ''line''
              [(''x1'', [Num (of_int padding)]), (''y1'', [Num (of_int (height - padding))]),
               (''x2'', [Num (of_int (width - padding))]),
               (''y2'', [Num (of_int (height - padding))]),
               (''stroke'', [Lit foreground])] None [];
          xlabel =
            Element ''text''
              [(''x'', [Lit ''0'']), (''y'', [Lit ''0'']), (''fill'', [Lit foreground]),
               (''transform'',
                [Lit ''translate('', Num (of_int width / 2 - 120), Lit '', '',
                 Num (of_int height - of_int padding / 2 + 10), Lit '') scale(2)''])]
              (Some [Lit ''Time (Previous 24 hours)'']) [];
          y_axis =
            Element ''line''
              [(''x1'', [Num (of_int padding)]), (''y1'', [Num (of_int padding)]),
               (''x2'', [Num (of_int padding)]), (''y2'', [Num (of_int (height - padding))]),
               (''stroke'', [Lit foreground])] None [];
          ylabel =
            Element ''text''
              [(''x'', [Lit ''0'']), (''y'', [Lit ''0'']), (''font_size'', [Lit ''12'']),
               (''fill'', [Lit foreground]),
               (''transform'',
                [Lit ''translate('', Num (of_int padding / 2 + 10), Lit '', '',
                 Num (of_int height / 2 + 100), Lit '') scale(2) rotate(-90)''])]
              (Some (if lg
                     then [Lit ''Power (Logarithmic. Higher region '', Num highlight_power,
                           Lit ''W)'']
                     else [Lit ''Power (Higher region '', Num highlight_power, Lit ''W)'']))
              [];
          group =
            Element ''g'' group_attrib None
              ([Element ''rect''
                  [(''width'', [Num (of_int width)]), (''height'', [Num (of_int height)]),
                   (''fill'', [Lit background])] None [],
                highlight_rect invert_highlight height draw_region y_highlight,
                title, x_axis, xlabel, y_axis, ylabel]
               @ map (\<lambda>kv. polyline height foreground (snd kv)) d)
      in Element ''svg'' svg_attrib' None [group])"

text \<open>
  Lines 166 to 189, the numeric part: the optional filter before the extent, the extent,
  the position of the threshold, the normalised data, the optional filter after it. It
  yields \<open>y_highlight\<close> and the data the polylines are drawn from.
\<close>

definition layout_data ::
  "bool \<Rightarrow> snapshot \<Rightarrow> int \<Rightarrow> int \<Rightarrow> int \<Rightarrow> real \<Rightarrow> string option \<Rightarrow> bool \<Rightarrow>
   error + (real \<times> snapshot)" where
  "layout_data lg d width height padding highlight_power only_source normalise_before_filter =
     (let draw_region = draw_region_of width height padding in
      bindE (filter_source (\<not> normalise_before_filter) only_source d) (\<lambda>d1.
      bindE (get_data_region d1) (\<lambda>data_region.
      bindE (scale_y lg highlight_power) (\<lambda>hp.
      bindE (normalise hp (min_y data_region) (max_y data_region)
               (min_y draw_region) (max_y draw_region)) (\<lambda>y_highlight.
      bindE (normalise_data d1 data_region draw_region) (\<lambda>d2.
      bindE (filter_source normalise_before_filter only_source d2) (\<lambda>d3.
        Inr (y_highlight, d3))))))))"

text \<open>
  The whole function. It returns the generator state it leaves behind, the lines it
  printed, and the tree it serialises or the exception it raised. The serialisation
  \<open>tostring(svg).decode()\<close> is a function of the tree alone and is not unfolded further.
\<close>

definition generate_svg ::
  "bool stream \<Rightarrow> bool \<Rightarrow> snapshot \<Rightarrow> int \<Rightarrow> int \<Rightarrow> int \<Rightarrow> bool option \<Rightarrow> real \<Rightarrow> bool option \<Rightarrow>
   string option \<Rightarrow> bool \<Rightarrow> bool \<Rightarrow> bool stream \<times> string list \<times> (error + element)" where
  "generate_svg rnd lg d width height padding invert highlight_power invert_highlight
     only_source normalise_before_filter rotate_flag =
     (let inv = resolve_flag invert rnd;
          inv_h = resolve_flag invert_highlight (snd inv);
          foreground = (if fst inv then ''white'' else ''black'');
          background = (if fst inv then ''black'' else ''white'');
          chk = check_source d only_source
      in (snd inv_h, fst chk,
          bindE (layout_data lg d width height padding highlight_power (snd chk)
                   normalise_before_filter) (\<lambda>yd.
            Inr (svg_tree lg width height padding foreground background (fst inv_h)
                   highlight_power (snd chk) rotate_flag
                   (draw_region_of width height padding) (fst yd) (snd yd)))))"

text \<open>
  \<open>generate_files\<close> (lines 289 and 301) and \<open>get_iotawatt_sensor_data\<close> (line 63) feed the
  converted payload to \<open>generate_svg\<close>; an exception of the conversion leaves before
  \<open>generate_svg\<close> is entered.
\<close>

definition render ::
  "bool stream \<Rightarrow> bool \<Rightarrow> sensor_json \<Rightarrow> int \<Rightarrow> int \<Rightarrow> int \<Rightarrow> bool option \<Rightarrow> real \<Rightarrow> bool option \<Rightarrow>
   string option \<Rightarrow> bool \<Rightarrow> bool \<Rightarrow> bool stream \<times> string list \<times> (error + element)" where
  "render rnd lg raw width height padding invert highlight_power invert_highlight
     only_source normalise_before_filter rotate_flag =
     (case convert_sensor_data lg raw of
        Inl e \<Rightarrow> (rnd, [], Inl e)
      | Inr d \<Rightarrow>
          generate_svg rnd lg d width height padding invert highlight_power invert_highlight
            only_source normalise_before_filter rotate_flag)"

subsection \<open>Notions used to state the properties\<close>

text \<open>A snapshot with at least one series, each holding at least one sample.\<close>

definition valid_snapshot :: "snapshot \<Rightarrow> bool" where
  "valid_snapshot d = (d \<noteq> [] \<and> list_all (\<lambda>kv. snd kv \<noteq> []) d)"

text \<open>The region \<open>generate_svg\<close> computes at line 169, after lines 162 to 167.\<close>

definition data_extent :: "snapshot \<Rightarrow> string option \<Rightarrow> bool \<Rightarrow> error + Region" where
  "data_extent d only_source normalise_before_filter =
     bindE (filter_source (\<not> normalise_before_filter) (snd (check_source d only_source)) d)
       get_data_region"

text \<open>How many elements of a tree carry a given tag.\<close>

fun count_tag :: "string \<Rightarrow> element \<Rightarrow> nat" where
  "count_tag t (Element tg a tx cs) =
     (if tg = t then 1 else 0) + sum_list (map (count_tag t) cs)"

text \<open>
  The tree with every black or white \<open>fill\<close> and \<open>stroke\<close> value blanked: what is left is
  everything but the two colours chosen by \<open>invert\<close>.
\<close>

definition erase_colour :: "string \<times> ptext \<Rightarrow> string \<times> ptext" where
  "erase_colour kv =
     (if (fst kv = ''fill'' \<or> fst kv = ''stroke'')
         \<and> (snd kv = [Lit ''black''] \<or> snd kv = [Lit ''white''])
      then (fst kv, []) else kv)"

fun erase_colours :: "element \<Rightarrow> element" where
  "erase_colours (Element tg a tx cs) =
     Element tg (map erase_colour a) tx (map erase_colours cs)"

text \<open>
  The second child of the group is the grey rectangle: \<open>highlight_of\<close> reads it,
  \<open>without_highlight\<close> removes it.
\<close>

definition highlight_of :: "element \<Rightarrow> element option" where
  "highlight_of doc =
     (case children doc of
        [] \<Rightarrow> None
      | g # _ \<Rightarrow> (case children g of _ # hl # _ \<Rightarrow> Some hl | _ \<Rightarrow> None))"

definition without_highlight :: "element \<Rightarrow> element" where
  "without_highlight doc =
     (case children doc of
        [] \<Rightarrow> doc
      | g # rest \<Rightarrow>
          Element (tag doc) (attrib doc) (etext doc)
            (Element (tag g) (attrib g) (etext g) (take 1 (children g) @ drop 2 (children g))
             # rest))"

section \<open>Properties\<close>

subsection \<open>The extent of a snapshot\<close>

lemma scan_min: "foldl (\<lambda>m v. if v < m then v else m) x xs = Min (set (x # xs))"
proof (induction xs arbitrary: x)
  case Nil
  show ?case by simp
next
  case (Cons y ys)
  show ?case
  proof (cases "set ys = {}")
    case True
    then show ?thesis by (auto simp: min_def)
  next
    case False
    then show ?thesis
      using Cons.IH [of "if y < x then y else x"] by (auto simp: Min_insert min_def)
  qed
qed

lemma scan_max: "foldl (\<lambda>m v. if v > m then v else m) x xs = Max (set (x # xs))"
proof (induction xs arbitrary: x)
  case Nil
  show ?case by simp
next
  case (Cons y ys)
  show ?case
  proof (cases "set ys = {}")
    case True
    then show ?thesis by (auto simp: max_def)
  next
    case False
    then show ?thesis
      using Cons.IH [of "if y > x then y else x"] by (auto simp: Max_insert max_def)
  qed
qed

lemma py_min_Min: "xs \<noteq> [] \<Longrightarrow> py_min xs = Inr (Min (set xs))"
  by (cases xs) (simp_all only: py_min.simps scan_min, simp)

lemma py_max_Max: "xs \<noteq> [] \<Longrightarrow> py_max xs = Inr (Max (set xs))"
  by (cases xs) (simp_all only: py_max.simps scan_max, simp)

lemma valid_points: "valid_snapshot d \<Longrightarrow> all_points d \<noteq> []"
  by (cases d) (auto simp: valid_snapshot_def all_points_def)

lemma get_data_region_eq:
  "all_points d \<noteq> [] \<Longrightarrow>
   get_data_region d =
     Inr \<lparr>min_x = Min (fst ` set (all_points d)), min_y = Min (snd ` set (all_points d)),
          max_x = Max (fst ` set (all_points d)), max_y = Max (snd ` set (all_points d))\<rparr>"
  by (simp add: get_data_region_def Let_def bindE_def py_min_Min py_max_Max)

lemma get_data_region_empty: "all_points d = [] \<Longrightarrow> get_data_region d = Inl ValueError"
  by (simp add: get_data_region_def Let_def bindE_def)

lemma set_all_points: "set (all_points d) = (\<Union>kv \<in> set d. set (snd kv))"
  by (simp add: all_points_def)

lemma attained:
  "m \<in> (\<Union>kv \<in> set d. f ` set (snd kv)) \<Longrightarrow> \<exists>kv \<in> set d. \<exists>p \<in> set (snd kv). f p = m"
  by auto

text \<open>
  Claim C1. On a snapshot with at least one series, each with at least one sample,
  \<open>get_data_region\<close> returns a region whose four bounds are the least and the greatest x and
  y coordinate over the samples of all series: every sample of every series lies inside the
  region, and each bound is the coordinate of some sample of some series.
\<close>

theorem get_data_region_tight:
  assumes "valid_snapshot d"
  shows "\<exists>r. get_data_region d = Inr r
           \<and> min_x r = Min (\<Union>kv \<in> set d. fst ` set (snd kv))
           \<and> max_x r = Max (\<Union>kv \<in> set d. fst ` set (snd kv))
           \<and> min_y r = Min (\<Union>kv \<in> set d. snd ` set (snd kv))
           \<and> max_y r = Max (\<Union>kv \<in> set d. snd ` set (snd kv))
           \<and> (\<forall>kv \<in> set d. \<forall>p \<in> set (snd kv).
                 min_x r \<le> fst p \<and> fst p \<le> max_x r \<and> min_y r \<le> snd p \<and> snd p \<le> max_y r)
           \<and> (\<exists>kv \<in> set d. \<exists>p \<in> set (snd kv). fst p = min_x r)
           \<and> (\<exists>kv \<in> set d. \<exists>p \<in> set (snd kv). fst p = max_x r)
           \<and> (\<exists>kv \<in> set d. \<exists>p \<in> set (snd kv). snd p = min_y r)
           \<and> (\<exists>kv \<in> set d. \<exists>p \<in> set (snd kv). snd p = max_y r)"
proof -
  let ?P = "set (all_points d)"
  let ?X = "\<Union>kv \<in> set d. fst ` set (snd kv)"
  let ?Y = "\<Union>kv \<in> set d. snd ` set (snd kv)"
  have P: "?P = (\<Union>kv \<in> set d. set (snd kv))" by (rule set_all_points)
  have X: "fst ` ?P = ?X" and Y: "snd ` ?P = ?Y" unfolding P by blast+
  have ne: "all_points d \<noteq> []" using assms by (rule valid_points)
  have fin: "finite ?X" "finite ?Y" by simp_all
  have n1: "fst ` ?P \<noteq> {}" and n2: "snd ` ?P \<noteq> {}" using ne by simp_all
  have nonempty: "?X \<noteq> {}" "?Y \<noteq> {}"
    by (rule n1 [unfolded X]) (rule n2 [unfolded Y])
  let ?r = "\<lparr>min_x = Min ?X, min_y = Min ?Y, max_x = Max ?X, max_y = Max ?Y\<rparr>"
  have r: "get_data_region d = Inr ?r"
    using get_data_region_eq [OF ne] by (simp only: X Y)
  have bounds: "\<forall>kv \<in> set d. \<forall>p \<in> set (snd kv).
      min_x ?r \<le> fst p \<and> fst p \<le> max_x ?r \<and> min_y ?r \<le> snd p \<and> snd p \<le> max_y ?r"
  proof (intro ballI)
    fix kv p assume "kv \<in> set d" "p \<in> set (snd kv)"
    then have "fst p \<in> ?X" "snd p \<in> ?Y" by blast+
    then show "min_x ?r \<le> fst p \<and> fst p \<le> max_x ?r \<and> min_y ?r \<le> snd p \<and> snd p \<le> max_y ?r"
      using fin by simp
  qed
  have "Min ?X \<in> ?X" using fin(1) nonempty(1) by (rule Min_in)
  then have a: "\<exists>kv \<in> set d. \<exists>p \<in> set (snd kv). fst p = Min ?X" by (rule attained)
  have "Max ?X \<in> ?X" using fin(1) nonempty(1) by (rule Max_in)
  then have b: "\<exists>kv \<in> set d. \<exists>p \<in> set (snd kv). fst p = Max ?X" by (rule attained)
  have "Min ?Y \<in> ?Y" using fin(2) nonempty(2) by (rule Min_in)
  then have c: "\<exists>kv \<in> set d. \<exists>p \<in> set (snd kv). snd p = Min ?Y" by (rule attained)
  have "Max ?Y \<in> ?Y" using fin(2) nonempty(2) by (rule Max_in)
  then have e: "\<exists>kv \<in> set d. \<exists>p \<in> set (snd kv). snd p = Max ?Y" by (rule attained)
  from r bounds a b c e show ?thesis by (intro exI [of _ ?r]) simp
qed

theorem get_data_region_tight_witness:
  "valid_snapshot [(''A'', [(0, 10), (1, 20), (2, 50)]), (''B'', [(0, 200), (1, 400), (2, 300)])]
   \<and> (\<exists>r. get_data_region
              [(''A'', [(0, 10), (1, 20), (2, 50)]), (''B'', [(0, 200), (1, 400), (2, 300)])] = Inr r
          \<and> min_x r = 0 \<and> max_x r = 2 \<and> min_y r = 10 \<and> max_y r = 400)"
proof -
  let ?d = "[(''A'', [(0, 10), (1, 20), (2, 50)]), (''B'', [(0, 200), (1, 400), (2, 300)])]
              :: snapshot"
  have v: "valid_snapshot ?d" by (simp add: valid_snapshot_def)
  from get_data_region_tight [OF v] obtain r where
    "get_data_region ?d = Inr r"
    "min_x r = Min (\<Union>kv \<in> set ?d. fst ` set (snd kv))"
    "max_x r = Max (\<Union>kv \<in> set ?d. fst ` set (snd kv))"
    "min_y r = Min (\<Union>kv \<in> set ?d. snd ` set (snd kv))"
    "max_y r = Max (\<Union>kv \<in> set ?d. snd ` set (snd kv))"
    by blast
  then show ?thesis using v by simp
qed

subsection \<open>The affine mapping\<close>

lemma normalise_lo: "lo \<noteq> hi \<Longrightarrow> normalise lo lo hi a b = Inr a"
  by (simp add: normalise_def)

lemma normalise_hi: "lo \<noteq> hi \<Longrightarrow> normalise hi lo hi a b = Inr b"
  by (simp add: normalise_def)

lemma normalise_degenerate: "normalise v lo lo a b = Inl ZeroDivisionError"
  by (simp add: normalise_def)

lemma normalise_total: "lo \<noteq> hi \<Longrightarrow> \<exists>y. normalise v lo hi a b = Inr y"
  by (simp add: normalise_def)

text \<open>
  Over the reals the formula of line 68 hits both ends of the target interval, and so both
  corners of the drawing region.
\<close>

lemma normalise_exact_corners:
  assumes "lo < hi" and "min_x r < max_x r" and "min_y r < max_y r"
  shows "normalise lo lo hi new_min new_max = Inr new_min
       \<and> normalise hi lo hi new_min new_max = Inr new_max
       \<and> normalise_point r (draw_region_of width height padding) (min_x r, min_y r)
           = Inr (of_int padding, of_int padding)
       \<and> normalise_point r (draw_region_of width height padding) (max_x r, max_y r)
           = Inr (of_int (width - padding), of_int (height - padding))"
  using assms
  by (simp add: normalise_lo normalise_hi normalise_point_def draw_region_of_def bindE_def)

subsection \<open>The affine mapping in floating point\<close>

lemma pow2_powi: "pow2 e = 2 powi e"
  by (simp add: pow2_def power_int_def inverse_eq_divide power_one_over)

lemma pow2_pos: "0 < pow2 e"
  by (simp add: pow2_powi)

lemma binade_le:
  assumes "x \<noteq> 0"
  shows "pow2 (binade x) \<le> \<bar>x\<bar>"
proof -
  obtain p q where pq: "quotient_of \<bar>x\<bar> = (p, q)" by (cases "quotient_of \<bar>x\<bar>")
  then have q: "0 < q" and x: "\<bar>x\<bar> = of_int p / of_int q"
    using quotient_of_denom_pos quotient_of_div by blast+
  have "0 < \<bar>x\<bar>" using assms by simp
  then have p: "0 < p" using q x by (simp add: zero_less_divide_iff)
  let ?a = "bitlen p" and ?b = "bitlen q"
  have a1: "1 \<le> ?a" using p by (simp add: bitlen_alt_def)
  have pl: "(2::rat) powi (?a - 1) \<le> of_int p"
  proof -
    have "(2::int) ^ nat (?a - 1) \<le> p" using bitlen_bounds [OF p] by simp
    then have "(of_int ((2::int) ^ nat (?a - 1)) :: rat) \<le> of_int p" by (simp only: of_int_le_iff)
    then show ?thesis using a1 by (simp add: power_int_def)
  qed
  have qu: "(of_int q :: rat) \<le> 2 powi ?b"
  proof -
    have "q < (2::int) ^ nat ?b" using bitlen_bounds [OF q] by simp
    then have "(of_int q :: rat) < of_int ((2::int) ^ nat ?b)" by (simp only: of_int_less_iff)
    then show ?thesis using bitlen_nonneg [of q] by (simp add: power_int_def)
  qed
  have "(2::rat) powi (?a - ?b - 1) = 2 powi (?a - 1) / 2 powi ?b"
    by (simp add: power_int_diff)
  also have "\<dots> \<le> of_int p / 2 powi ?b"
    using pl by (simp add: divide_right_mono)
  also have "\<dots> \<le> of_int p / of_int q"
    using qu p q by (simp add: frac_le)
  finally have low: "pow2 (?a - ?b - 1) \<le> \<bar>x\<bar>" using x by (simp add: pow2_powi)
  show ?thesis
    using low pq by (simp add: binade_def Let_def)
qed



lemma round_half_even_error: "\<bar>of_int (round_half_even y) - y\<bar> \<le> 1 / 2"
proof -
  have "of_int \<lfloor>y\<rfloor> \<le> y" "y < of_int \<lfloor>y\<rfloor> + 1" by linarith+
  then show ?thesis
    unfolding round_half_even_def Let_def by (auto split: if_splits)
qed



lemma binade_less:
  assumes "x \<noteq> 0"
  shows "\<bar>x\<bar> < pow2 (binade x + 1)"
proof -
  obtain p q where pq: "quotient_of \<bar>x\<bar> = (p, q)" by (cases "quotient_of \<bar>x\<bar>")
  then have q: "0 < q" and x: "\<bar>x\<bar> = of_int p / of_int q"
    using quotient_of_denom_pos quotient_of_div by blast+
  have "0 < \<bar>x\<bar>" using assms by simp
  then have p: "0 < p" using q x by (simp add: zero_less_divide_iff)
  let ?a = "bitlen p" and ?b = "bitlen q"
  have b1: "1 \<le> ?b" using q by (simp add: bitlen_alt_def)
  have pu: "(of_int p :: rat) < 2 powi ?a"
  proof -
    have "p < (2::int) ^ nat ?a" using bitlen_bounds [OF p] by simp
    then have "(of_int p :: rat) < of_int ((2::int) ^ nat ?a)" by (simp only: of_int_less_iff)
    then show ?thesis using bitlen_nonneg [of p] by (simp add: power_int_def)
  qed
  have ql: "(2::rat) powi (?b - 1) \<le> of_int q"
  proof -
    have "(2::int) ^ nat (?b - 1) \<le> q" using bitlen_bounds [OF q] by simp
    then have "(of_int ((2::int) ^ nat (?b - 1)) :: rat) \<le> of_int q" by (simp only: of_int_le_iff)
    then show ?thesis using b1 by (simp add: power_int_def)
  qed
  have "of_int p / of_int q \<le> of_int p / (2::rat) powi (?b - 1)"
    using ql p by (simp add: frac_le)
  also have "\<dots> < 2 powi ?a / (2::rat) powi (?b - 1)"
    using pu by (simp add: divide_strict_right_mono)
  also have "\<dots> = 2 powi (?a - ?b + 1)"
    by (simp add: power_int_diff power_int_add)
  finally have up: "\<bar>x\<bar> < pow2 (?a - ?b + 1)" using x by (simp add: pow2_powi)
  show ?thesis
    using up pq by (auto simp: binade_def Let_def)
qed

text \<open>
  \<open>fl x\<close> is \<open>m * 2 ^ e\<close> with \<open>2 ^ 52 \<le> \<bar>m\<bar> \<le> 2 ^ 53\<close>, the integer \<open>m\<close> nearest to \<open>x / 2 ^ e\<close>:
  the rounding keeps 53 significant bits.
\<close>

lemma fl_significand:
  assumes "x \<noteq> 0"
  shows "fl x = of_int (round_half_even (x / pow2 (binade x - 52))) * pow2 (binade x - 52)"
    and "2 ^ 52 \<le> \<bar>round_half_even (x / pow2 (binade x - 52))\<bar>"
    and "\<bar>round_half_even (x / pow2 (binade x - 52))\<bar> \<le> 2 ^ 53"
proof -
  let ?e = "binade x - 52"
  let ?s = "x / pow2 ?e"
  let ?m = "round_half_even ?s"
  show "fl x = of_int ?m * pow2 ?e" using assms by (simp add: fl_def Let_def)
  have pos: "0 < pow2 ?e" by (rule pow2_pos)
  have e: "pow2 (binade x) = 2 ^ 52 * pow2 ?e" "pow2 (binade x + 1) = 2 ^ 53 * pow2 ?e"
    by (simp_all add: pow2_powi power_int_diff power_int_add)
  have lo: "2 ^ 52 \<le> \<bar>?s\<bar>"
    using binade_le [OF assms] pos by (simp add: e abs_divide pos_le_divide_eq)
  have hi: "\<bar>?s\<bar> < 2 ^ 53"
    using binade_less [OF assms] pos by (simp add: e abs_divide pos_divide_less_eq)
  have err: "\<bar>of_int ?m - ?s\<bar> \<le> 1 / 2" by (rule round_half_even_error)
  have "(2 ^ 52 :: rat) - 1 / 2 \<le> \<bar>of_int ?m\<bar>" using lo err by linarith
  then have "(of_int (2 ^ 52 - 1) :: rat) < of_int \<bar>?m\<bar>" by simp
  then have "2 ^ 52 - 1 < \<bar>?m\<bar>" by (simp only: of_int_less_iff)
  then show "2 ^ 52 \<le> \<bar>?m\<bar>" by simp
  have "\<bar>of_int ?m :: rat\<bar> < 2 ^ 53 + 1" using hi err by linarith
  then have "(of_int \<bar>?m\<bar> :: rat) < of_int (2 ^ 53 + 1)" by simp
  then have "\<bar>?m\<bar> < 2 ^ 53 + 1" by (simp only: of_int_less_iff)
  then show "\<bar>?m\<bar> \<le> 2 ^ 53" by simp
qed

text \<open>The float literal \<open>0.3\<close>.\<close>

lemma fl_three_tenths: "fl (3 / 10) = 5404319552844595 / 2 ^ 54"
  by code_simp









subsection \<open>A degenerate extent\<close>

lemma normalise_data_degenerate_x:
  "all_points d \<noteq> [] \<Longrightarrow> min_x r = max_x r \<Longrightarrow> normalise_data d r dr = Inl ZeroDivisionError"
proof (induction d)
  case Nil
  then show ?case by (simp add: all_points_def)
next
  case (Cons kv d)
  show ?case
  proof (cases "snd kv")
    case Nil
    then have "all_points d \<noteq> []" using Cons.prems(1) by (simp add: all_points_def)
    then have "normalise_data d r dr = Inl ZeroDivisionError"
      using Cons.IH Cons.prems(2) by simp
    then show ?thesis using Nil by (simp add: normalise_data_def bindE_def)
  next
    case (Cons p ps)
    then show ?thesis using Cons.prems(2)
      by (simp add: normalise_data_def normalise_point_def normalise_degenerate bindE_def)
  qed
qed

lemma get_data_region_points: "get_data_region d = Inr r \<Longrightarrow> all_points d \<noteq> []"
  using get_data_region_empty [of d] by auto

text \<open>
  Claim C3, as amended. The source defines no \<open>DegenerateRegionError\<close> and tests nothing
  before it divides. When the extent computed at line 169 is degenerate on some axis (and
  the threshold passes \<open>scale_y\<close>), the call ends with the \<open>ZeroDivisionError\<close> of the division
  in \<open>normalise\<close>: for a degenerate y axis at the threshold (line 179), for a degenerate x
  axis alone at the first sample (line 186). No document is returned.
\<close>

theorem degenerate_extent_division_by_zero:
  assumes "data_extent d only_source normalise_before_filter = Inr r"
      and "min_x r = max_x r \<or> min_y r = max_y r"
      and "lg \<longrightarrow> 0 < highlight_power"
  shows "snd (snd (generate_svg rnd lg d width height padding invert highlight_power
                     invert_highlight only_source normalise_before_filter rotate_flag))
         = Inl ZeroDivisionError"
proof -
  from assms(1) obtain d1 where
    d1: "filter_source (\<not> normalise_before_filter) (snd (check_source d only_source)) d = Inr d1"
    and r: "get_data_region d1 = Inr r"
    by (auto simp: data_extent_def bindE_def split: sum.splits)
  from assms(3) have "\<exists>hp. scale_y lg highlight_power = Inr hp"
    by (cases lg) (simp_all add: scale_y_def)
  then obtain hp where hp: "scale_y lg highlight_power = Inr hp" ..
  have pts: "all_points d1 \<noteq> []" using r by (rule get_data_region_points)
  show ?thesis
  proof (cases "min_y r = max_y r")
    case True
    then show ?thesis
      by (simp add: generate_svg_def layout_data_def Let_def bindE_def d1 r hp normalise_degenerate)
  next
    case False
    then have "min_x r = max_x r" using assms(2) by simp
    then have nd: "normalise_data d1 r dr = Inl ZeroDivisionError" for dr
      using pts by (simp add: normalise_data_degenerate_x)
    from False obtain y where
      "normalise hp (min_y r) (max_y r) (min_y (draw_region_of width height padding))
         (max_y (draw_region_of width height padding)) = Inr y"
      using normalise_total by blast
    then show ?thesis
      by (simp add: generate_svg_def layout_data_def Let_def bindE_def d1 r hp nd)
  qed
qed

theorem degenerate_extent_division_by_zero_witness:
  "data_extent [(''A'', [(0, 5), (0, 7)])] None True
     = Inr \<lparr>min_x = 0, min_y = 5, max_x = 0, max_y = 7\<rparr>
   \<and> snd (snd (generate_svg (sconst True) False [(''A'', [(0, 5), (0, 7)])] 1448 1072 50
                 (Some False) 1000 (Some False) None True True))
       = Inl ZeroDivisionError"
proof -
  have e: "data_extent [(''A'', [(0, 5), (0, 7)])] None True
             = Inr \<lparr>min_x = 0, min_y = 5, max_x = 0, max_y = 7\<rparr>"
    by (simp add: data_extent_def check_source_def filter_source_def get_data_region_def
        all_points_def bindE_def)
  show ?thesis
    using e degenerate_extent_division_by_zero [OF e, of False 1000 "sconst True" 1448 1072 50
        "Some False" "Some False" True]
    by simp
qed

text \<open>
  Claim C3, as stated, fails: a snapshot of one sample is degenerate on both axes, and the
  exception that ends the call is the one raised by dividing by zero.
\<close>

theorem degenerate_extent_counterexample:
  "generate_svg (sconst True) False [(''A'', [(0, 5)])] 1448 1072 50
     (Some False) 1000 (Some False) None True True
   = (sconst True, [], Inl ZeroDivisionError)"
  by (simp add: generate_svg_def layout_data_def resolve_flag_def check_source_def
      filter_source_def get_data_region_def all_points_def bindE_def normalise_def scale_y_def
      draw_region_of_def)

subsection \<open>The channel filter\<close>

lemma mapE_map: "(\<And>x. x \<in> set xs \<Longrightarrow> f x = Inr (g x)) \<Longrightarrow> mapE f xs = Inr (map g xs)"
  by (induction xs) (simp_all add: bindE_def)

lemma normalise_point_total:
  assumes "min_x r \<noteq> max_x r" and "min_y r \<noteq> max_y r"
  shows "\<exists>q. normalise_point r dr p = Inr q"
  using assms by (simp add: normalise_point_def normalise_def bindE_def)

lemma normalise_points_total:
  assumes "min_x r \<noteq> max_x r" and "min_y r \<noteq> max_y r"
  shows "\<exists>qs. mapE (normalise_point r dr) ps = Inr qs \<and> length qs = length ps"
proof (induction ps)
  case Nil
  show ?case by simp
next
  case (Cons p ps)
  from normalise_point_total [OF assms] obtain q where "normalise_point r dr p = Inr q"
    by blast
  with Cons show ?case by (auto simp: bindE_def)
qed

lemma normalise_data_total:
  assumes "min_x r \<noteq> max_x r" and "min_y r \<noteq> max_y r"
  shows "\<exists>d2. normalise_data d r dr = Inr d2 \<and> map fst d2 = map fst d"
proof (induction d)
  case Nil
  show ?case by (simp add: normalise_data_def)
next
  case (Cons kv d)
  from normalise_points_total [OF assms] obtain qs where
    "mapE (normalise_point r dr) (snd kv) = Inr qs" by blast
  with Cons show ?case by (auto simp: normalise_data_def bindE_def)
qed

lemma dict_get_present: "k \<in> set (map fst d) \<Longrightarrow> \<exists>v. dict_get d k = Inr v"
proof -
  assume "k \<in> set (map fst d)"
  then have "map_of d k \<noteq> None" by (simp add: map_of_eq_None_iff)
  then show ?thesis by (auto simp: dict_get_def)
qed

lemma count_polyline_children:
  "sum_list (map (count_tag ''polyline'') (map (\<lambda>kv. polyline h fg (snd kv)) d)) = length d"
  by (induction d) (simp_all add: polyline_def)

lemma count_polyline_svg_tree:
  "count_tag ''polyline'' (svg_tree lg w h p fg bg ih hp os rot dr yh d) = length d"
  by (simp add: svg_tree_def Let_def highlight_rect_def count_polyline_children
      del: map_map)

text \<open>The filter of a present, non-empty name yields one entry, before or after.\<close>

lemma filter_source_off: "filter_source False os d = Inr d"
  by (simp add: filter_source_def split: option.splits)

lemma filter_source_on:
  assumes "s \<in> set (map fst d)" and "s \<noteq> []"
  shows "\<exists>v. filter_source True (Some s) d = Inr [(s, v)]"
  using dict_get_present [OF assms(1)] assms(2) by (auto simp: filter_source_def bindE_def)

lemma layout_data_total:
  assumes ext: "bindE (filter_source (\<not> nbf) os d) get_data_region = Inr r"
      and nx: "min_x r \<noteq> max_x r" and ny: "min_y r \<noteq> max_y r"
      and hp: "lg \<longrightarrow> 0 < hp"
      and present: "\<forall>s. os = Some s \<longrightarrow> s \<in> set (map fst d)"
  shows "\<exists>yh d3. layout_data lg d w h p hp os nbf = Inr (yh, d3)
           \<and> length d3 = (if os = None \<or> os = Some [] then length d else 1)"
proof -
  from ext obtain d1 where d1: "filter_source (\<not> nbf) os d = Inr d1"
    and r: "get_data_region d1 = Inr r"
    by (auto simp: bindE_def split: sum.splits)
  from hp have "\<exists>v. scale_y lg hp = Inr v" by (cases lg) (simp_all add: scale_y_def)
  then obtain v where v: "scale_y lg hp = Inr v" ..
  let ?dr = "draw_region_of w h p"
  from ny obtain yh where yh: "normalise v (min_y r) (max_y r) (min_y ?dr) (max_y ?dr) = Inr yh"
    by (auto simp: normalise_def)
  from normalise_data_total [OF nx ny] obtain d2 where
    d2: "normalise_data d1 r ?dr = Inr d2" and keys: "map fst d2 = map fst d1" by blast
  have "\<exists>d3. filter_source nbf os d2 = Inr d3
          \<and> length d3 = (if os = None \<or> os = Some [] then length d else 1)"
  proof (cases "os = None \<or> os = Some []")
    case True
    then have "d1 = d" using d1 by (auto simp: filter_source_def)
    moreover have "filter_source nbf os d2 = Inr d2" using True by (auto simp: filter_source_def)
    moreover have "length d2 = length d1" using keys by (metis length_map)
    ultimately show ?thesis using True by simp
  next
    case False
    then obtain s where s: "os = Some s" "s \<noteq> []" by (cases os) auto
    then have pres: "s \<in> set (map fst d)" using present by simp
    show ?thesis
    proof (cases nbf)
      case True
      then have "d1 = d" using d1 by (simp add: filter_source_off)
      then have "s \<in> set (map fst d2)" using pres keys by simp
      from filter_source_on [OF this s(2)] show ?thesis using True s by auto
    next
      case False
      from filter_source_on [OF pres s(2)] obtain pts where
        "filter_source True (Some s) d = Inr [(s, pts)]" by blast
      then have "d1 = [(s, pts)]" using d1 False s by simp
      then have "length d2 = 1" using keys by (metis length_map length_Cons list.size(3) One_nat_def)
      then show ?thesis using False s by (simp add: filter_source_off)
    qed
  qed
  then obtain d3 where d3: "filter_source nbf os d2 = Inr d3"
    and len: "length d3 = (if os = None \<or> os = Some [] then length d else 1)" by blast
  have "layout_data lg d w h p hp os nbf = Inr (yh, d3)"
    by (simp add: layout_data_def Let_def bindE_def d1 r v yh d2 d3)
  then show ?thesis using len by blast
qed


lemma check_source_present:
  "s \<in> set (map fst d) \<Longrightarrow> check_source d (Some s) = ([], Some s)"
  by (simp add: check_source_def)

lemma check_source_absent:
  "s \<notin> set (map fst d) \<Longrightarrow>
   check_source d (Some s) = ([''Ignoring request to filter non-existent field: '' @ s], None)"
  by (simp add: check_source_def)

lemma check_source_None: "check_source d None = ([], None)"
  by (simp add: check_source_def)

lemma generate_svg_result:
  "snd (snd (generate_svg rnd lg d w h p iv hp ih os nbf rot)) =
     bindE (layout_data lg d w h p hp (snd (check_source d os)) nbf) (\<lambda>yd.
       Inr (svg_tree lg w h p
              (if fst (resolve_flag iv rnd) then ''white'' else ''black'')
              (if fst (resolve_flag iv rnd) then ''black'' else ''white'')
              (fst (resolve_flag ih (snd (resolve_flag iv rnd))))
              hp (snd (check_source d os)) rot (draw_region_of w h p) (fst yd) (snd yd)))"
  by (simp add: generate_svg_def Let_def)

lemma generate_svg_printed:
  "fst (snd (generate_svg rnd lg d w h p iv hp ih os nbf rot)) = fst (check_source d os)"
  by (simp add: generate_svg_def Let_def)

lemma generate_svg_rnd:
  "fst (generate_svg rnd lg d w h p iv hp ih os nbf rot)
     = snd (resolve_flag ih (snd (resolve_flag iv rnd)))"
  by (simp add: generate_svg_def Let_def)

text \<open>
  Claim C4, as amended. Let the extent computed at line 169 be non-degenerate on both axes
  (and the threshold pass \<open>scale_y\<close>), so that the call returns a document. With a filter
  that names a key of the snapshot and is not the empty string, nothing is printed and the
  document holds exactly one polyline. With a filter that names no key, the call prints
  the notice and returns the very document of the call without filter (same snapshot,
  same flags, same generator state), leaving the generator in the same state.
\<close>

theorem filter_semantics:
  fixes d :: snapshot and rnd :: "bool stream" and lg :: bool
    and width height padding :: int and invert invert_highlight :: "bool option"
    and highlight_power :: real and normalise_before_filter rotate_flag :: bool
  defines "G \<equiv> \<lambda>os. generate_svg rnd lg d width height padding invert highlight_power
                       invert_highlight os normalise_before_filter rotate_flag"
  assumes "data_extent d (Some s) normalise_before_filter = Inr r"
      and "min_x r \<noteq> max_x r" and "min_y r \<noteq> max_y r"
      and "lg \<longrightarrow> 0 < highlight_power"
  shows "(s \<in> set (map fst d) \<and> s \<noteq> [] \<longrightarrow>
            fst (snd (G (Some s))) = []
            \<and> (\<exists>doc. snd (snd (G (Some s))) = Inr doc \<and> count_tag ''polyline'' doc = 1))
       \<and> (s \<notin> set (map fst d) \<longrightarrow>
            fst (G (Some s)) = fst (G None)
            \<and> fst (snd (G (Some s))) = [''Ignoring request to filter non-existent field: '' @ s]
            \<and> fst (snd (G None)) = []
            \<and> (\<exists>doc. snd (snd (G (Some s))) = Inr doc \<and> snd (snd (G None)) = Inr doc))"
proof (intro conjI impI)
  assume a: "s \<in> set (map fst d) \<and> s \<noteq> []"
  then have chk: "check_source d (Some s) = ([], Some s)" by (simp add: check_source_present)
  then show "fst (snd (G (Some s))) = []" by (simp add: G_def generate_svg_printed)
  have ext: "bindE (filter_source (\<not> normalise_before_filter) (Some s) d) get_data_region = Inr r"
    using assms(2) chk by (simp add: data_extent_def)
  from layout_data_total [OF ext assms(3,4,5), of width height padding] a
  obtain yh d3 where
    "layout_data lg d width height padding highlight_power (Some s) normalise_before_filter
       = Inr (yh, d3)" and "length d3 = 1"
    by auto
  then show "\<exists>doc. snd (snd (G (Some s))) = Inr doc \<and> count_tag ''polyline'' doc = 1"
    by (simp add: G_def generate_svg_result chk bindE_def count_polyline_svg_tree)
next
  assume a: "s \<notin> set (map fst d)"
  then have chk: "check_source d (Some s)
      = ([''Ignoring request to filter non-existent field: '' @ s], None)"
    by (rule check_source_absent)
  show "fst (G (Some s)) = fst (G None)" by (simp add: G_def generate_svg_rnd)
  show "fst (snd (G (Some s))) = [''Ignoring request to filter non-existent field: '' @ s]"
    by (simp add: G_def generate_svg_printed chk)
  show "fst (snd (G None)) = []" by (simp add: G_def generate_svg_printed check_source_None)
  have ext: "bindE (filter_source (\<not> normalise_before_filter) None d) get_data_region = Inr r"
    using assms(2) chk by (simp add: data_extent_def)
  from layout_data_total [OF ext assms(3,4,5), of width height padding]
  obtain yh d3 where
    "layout_data lg d width height padding highlight_power None normalise_before_filter
       = Inr (yh, d3)"
    by auto
  then show "\<exists>doc. snd (snd (G (Some s))) = Inr doc \<and> snd (snd (G None)) = Inr doc"
    by (simp add: G_def generate_svg_result chk check_source_None bindE_def)
qed


theorem filter_semantics_witness:
  "(\<exists>doc. snd (snd (generate_svg (sconst True) False
                 [(''A'', [(0, 10), (1, 20)]), (''B'', [(0, 200), (2, 400)])]
                 1448 1072 50 (Some False) 1000 (Some False) (Some ''A'') True True)) = Inr doc
          \<and> count_tag ''polyline'' doc = 1)
   \<and> (\<exists>doc. snd (snd (generate_svg (sconst True) False
                 [(''A'', [(0, 10), (1, 20)]), (''B'', [(0, 200), (2, 400)])]
                 1448 1072 50 (Some False) 1000 (Some False) (Some ''Z'') True True)) = Inr doc
          \<and> snd (snd (generate_svg (sconst True) False
                 [(''A'', [(0, 10), (1, 20)]), (''B'', [(0, 200), (2, 400)])]
                 1448 1072 50 (Some False) 1000 (Some False) None True True)) = Inr doc)"
proof -
  let ?d = "[(''A'', [(0, 10), (1, 20)]), (''B'', [(0, 200), (2, 400)])] :: snapshot"
  let ?r = "\<lparr>min_x = 0, min_y = 10, max_x = 2, max_y = 400\<rparr>"
  have e1: "data_extent ?d (Some ''A'') True = Inr ?r"
    by (simp add: data_extent_def check_source_def filter_source_def get_data_region_def
        all_points_def bindE_def)
  have e2: "data_extent ?d (Some ''Z'') True = Inr ?r"
    by (simp add: data_extent_def check_source_def filter_source_def get_data_region_def
        all_points_def bindE_def)
  have nx: "min_x ?r \<noteq> max_x ?r" and ny: "min_y ?r \<noteq> max_y ?r" by simp_all
  have hp: "False \<longrightarrow> (0::real) < 1000" by simp
  show ?thesis
    using filter_semantics [OF e1 nx ny hp, of "sconst True" 1448 1072 50 "Some False"
        "Some False" True]
      filter_semantics [OF e2 nx ny hp, of "sconst True" 1448 1072 50 "Some False"
        "Some False" True]
    by simp
qed

text \<open>
  Claim C4, as stated, fails on a valid snapshot whose readings are constant: with the
  filter present and with the filter absent the call raises \<open>ZeroDivisionError\<close> and returns
  no document.
\<close>

theorem filter_semantics_counterexample:
  "valid_snapshot [(''A'', [(0, 5), (1, 5)])]
   \<and> snd (snd (generate_svg (sconst True) False [(''A'', [(0, 5), (1, 5)])]
                 1448 1072 50 (Some False) 1000 (Some False) (Some ''A'') True True))
       = Inl ZeroDivisionError
   \<and> snd (snd (generate_svg (sconst True) False [(''A'', [(0, 5), (1, 5)])]
                 1448 1072 50 (Some False) 1000 (Some False) (Some ''Z'') True True))
       = Inl ZeroDivisionError"
  by (simp add: valid_snapshot_def generate_svg_def layout_data_def resolve_flag_def
      check_source_def filter_source_def get_data_region_def all_points_def bindE_def
      normalise_def scale_y_def draw_region_of_def)

subsection \<open>Determinism\<close>

text \<open>
  Claim C7. With both inversion flags pinned, \<open>generate_svg\<close> does not read the random
  generator and leaves it as it found it, and what it prints and returns is the same from
  any generator state: two calls with the same snapshot, style and flags yield the same
  document. The same holds when the call is preceded by the conversion of the payload.
\<close>

theorem pinned_flags_deterministic:
  "generate_svg rnd lg d width height padding (Some invert) highlight_power
     (Some invert_highlight) only_source normalise_before_filter rotate_flag
   = (rnd, snd (generate_svg rnd' lg d width height padding (Some invert) highlight_power
                  (Some invert_highlight) only_source normalise_before_filter rotate_flag))
   \<and> render rnd lg raw width height padding (Some invert) highlight_power
       (Some invert_highlight) only_source normalise_before_filter rotate_flag
     = (rnd, snd (render rnd' lg raw width height padding (Some invert) highlight_power
                    (Some invert_highlight) only_source normalise_before_filter rotate_flag))"
proof -
  have flags: "resolve_flag (Some b) r = (b, r)" for b r
    by (simp add: resolve_flag_def)
  have g: "generate_svg r lg d' width height padding (Some invert) highlight_power
             (Some invert_highlight) only_source normalise_before_filter rotate_flag
         = (r, snd (generate_svg r' lg d' width height padding (Some invert) highlight_power
                      (Some invert_highlight) only_source normalise_before_filter rotate_flag))"
    for r r' d'
    by (simp add: generate_svg_def flags Let_def)
  have "render rnd lg raw width height padding (Some invert) highlight_power
          (Some invert_highlight) only_source normalise_before_filter rotate_flag
      = (rnd, snd (render rnd' lg raw width height padding (Some invert) highlight_power
                     (Some invert_highlight) only_source normalise_before_filter rotate_flag))"
  proof (cases "convert_sensor_data lg raw")
    case (Inl e)
    then show ?thesis by (simp add: render_def)
  next
    case (Inr d')
    then show ?thesis using g [of rnd d' rnd'] by (simp add: render_def)
  qed
  with g [of rnd d rnd'] show ?thesis by simp
qed

theorem pinned_flags_deterministic_witness:
  "generate_svg (sconst True) False [(''A'', [(0, 10), (1, 20)]), (''B'', [(0, 200), (2, 400)])]
     1448 1072 50 (Some False) 1000 (Some True) None True True
   = (sconst True,
      snd (generate_svg (sconst False) False
             [(''A'', [(0, 10), (1, 20)]), (''B'', [(0, 200), (2, 400)])]
             1448 1072 50 (Some False) 1000 (Some True) None True True))"
  using pinned_flags_deterministic [where rnd = "sconst True" and rnd' = "sconst False"
      and lg = False and d = "[(''A'', [(0, 10), (1, 20)]), (''B'', [(0, 200), (2, 400)])]"
      and width = 1448 and height = 1072 and padding = 50 and invert = False
      and highlight_power = 1000 and invert_highlight = True and only_source = None
      and normalise_before_filter = True and rotate_flag = True]
  by simp

text \<open>An unpinned flag does consume a coin flip.\<close>

lemma unpinned_invert_reads_rnd:
  "fst (generate_svg rnd lg d width height padding None highlight_power
          (Some invert_highlight) only_source normalise_before_filter rotate_flag) = stl rnd"
  by (simp add: generate_svg_def resolve_flag_def Let_def)

subsection \<open>The two inversion flags\<close>

lemma erase_polyline:
  "fg = ''black'' \<or> fg = ''white'' \<Longrightarrow>
   erase_colours (polyline h fg pts) =
     Element ''polyline''
       [(''points'', join_pieces [Lit '' ''] (map (point_str h) pts)), (''stroke'', []),
        (''fill'', [Lit ''none'']), (''stroke_width'', [Lit ''2''])] None []"
  by (auto simp: polyline_def erase_colour_def)

lemma erase_highlight_rect:
  "erase_colours (highlight_rect ih h dr yh) = highlight_rect ih h dr yh"
  by (simp add: highlight_rect_def erase_colour_def)

lemma erase_svg_tree:
  assumes "fg = ''black'' \<or> fg = ''white''" and "bg = ''black'' \<or> bg = ''white''"
  shows "erase_colours (svg_tree lg w h p fg bg ih hp os rot dr yh d)
       = erase_colours (svg_tree lg w h p ''black'' ''white'' ih hp os rot dr yh d)"
proof -
  have poly: "map (erase_colours \<circ> (\<lambda>kv. polyline h fg (snd kv))) d
            = map (erase_colours \<circ> (\<lambda>kv. polyline h ''black'' (snd kv))) d"
    using assms(1) by (simp add: erase_polyline)
  show ?thesis
    using assms
    by (auto simp: svg_tree_def Let_def erase_highlight_rect erase_colour_def dict_set_def poly)
qed

lemma without_highlight_svg_tree:
  "without_highlight (svg_tree lg w h p fg bg ih hp os rot dr yh d)
   = without_highlight (svg_tree lg w h p fg bg ih' hp os rot dr yh d)"
  by (simp add: svg_tree_def Let_def without_highlight_def)

lemma highlight_of_svg_tree:
  "highlight_of (svg_tree lg w h p fg bg ih hp os rot dr yh d) = Some (highlight_rect ih h dr yh)"
  by (simp add: svg_tree_def Let_def highlight_of_def)


text \<open>
  Claim C8. Fix the snapshot and the style and pin both flags. The generator state and the
  printed lines do not depend on the flags. Toggling \<open>invert\<close> alone leaves the tree the
  same once the black and white \<open>fill\<close> and \<open>stroke\<close> values are blanked (so every
  coordinate, text and other attribute is unchanged), and leaves the grey rectangle
  unchanged. Toggling \<open>invert_highlight\<close> alone leaves the tree without the grey rectangle
  unchanged. The grey rectangle depends on \<open>invert_highlight\<close> only: for one and the same
  \<open>y_highlight\<close> it spans the rows from \<open>padding\<close> to \<open>height - y_highlight\<close> when the flag is
  off and from \<open>height - y_highlight\<close> to \<open>height - padding\<close> when it is on. When the call
  raises, it raises the same exception for all four combinations.
\<close>

theorem inversion_flags_orthogonal:
  fixes d :: snapshot and rnd :: "bool stream" and lg :: bool
    and width height padding :: int and highlight_power :: real
    and only_source :: "string option" and normalise_before_filter rotate_flag :: bool
  defines "G \<equiv> \<lambda>iv ih. generate_svg rnd lg d width height padding (Some iv) highlight_power
                          (Some ih) only_source normalise_before_filter rotate_flag"
  shows "fst (G iv ih) = rnd
       \<and> fst (snd (G iv ih)) = fst (snd (G iv' ih'))
       \<and> map_sum id erase_colours (snd (snd (G iv ih)))
           = map_sum id erase_colours (snd (snd (G iv' ih)))
       \<and> map_sum id highlight_of (snd (snd (G iv ih)))
           = map_sum id highlight_of (snd (snd (G iv' ih)))
       \<and> map_sum id without_highlight (snd (snd (G iv ih)))
           = map_sum id without_highlight (snd (snd (G iv ih')))
       \<and> (case layout_data lg d width height padding highlight_power
                  (snd (check_source d only_source)) normalise_before_filter of
             Inl e \<Rightarrow> snd (snd (G iv ih)) = Inl e
           | Inr yd \<Rightarrow>
               map_sum id highlight_of (snd (snd (G iv ih))) =
                 Inr (Some (Element ''rect''
                   [(''x'', [Num (of_int padding)]),
                    (''y'', [Num (if ih then of_int height - fst yd else of_int padding)]),
                    (''width'', [Num (of_int (width - padding) - of_int padding)]),
                    (''height'', [Num (if ih then fst yd - of_int padding
                                       else of_int (height - padding) - fst yd)]),
                    (''fill'', [Lit ''grey''])] None [])))"
proof -
  let ?L = "layout_data lg d width height padding highlight_power
              (snd (check_source d only_source)) normalise_before_filter"
  have res: "snd (snd (G a b)) =
      bindE ?L (\<lambda>yd. Inr (svg_tree lg width height padding
        (if a then ''white'' else ''black'') (if a then ''black'' else ''white'') b
        highlight_power (snd (check_source d only_source)) rotate_flag
        (draw_region_of width height padding) (fst yd) (snd yd)))" for a b
    by (simp add: G_def generate_svg_result resolve_flag_def)
  have norm: "erase_colours (svg_tree lg width height padding
        (if a then ''white'' else ''black'') (if a then ''black'' else ''white'') b
        highlight_power os rotate_flag dr yh d3)
      = erase_colours (svg_tree lg width height padding ''black'' ''white'' b
        highlight_power os rotate_flag dr yh d3)" for a b os dr yh d3
    by (rule erase_svg_tree) simp_all
  have 1: "fst (G iv ih) = rnd" by (simp add: G_def generate_svg_rnd resolve_flag_def)
  have 2: "fst (snd (G iv ih)) = fst (snd (G iv' ih'))"
    by (simp add: G_def generate_svg_printed)
  have 3: "map_sum id erase_colours (snd (snd (G iv ih)))
         = map_sum id erase_colours (snd (snd (G iv' ih)))"
    unfolding res by (cases ?L) (simp_all add: bindE_def norm)
  have 4: "map_sum id highlight_of (snd (snd (G iv ih)))
         = map_sum id highlight_of (snd (snd (G iv' ih)))"
    unfolding res by (cases ?L) (simp_all add: bindE_def highlight_of_svg_tree)
  have 5: "map_sum id without_highlight (snd (snd (G iv ih)))
         = map_sum id without_highlight (snd (snd (G iv ih')))"
    unfolding res
    by (cases ?L) (simp_all add: bindE_def without_highlight_svg_tree [of _ _ _ _ _ _ ih _ _ _ _ _ _ ih'])
  have 6: "(case ?L of
             Inl e \<Rightarrow> snd (snd (G iv ih)) = Inl e
           | Inr yd \<Rightarrow>
               map_sum id highlight_of (snd (snd (G iv ih))) =
                 Inr (Some (Element ''rect''
                   [(''x'', [Num (of_int padding)]),
                    (''y'', [Num (if ih then of_int height - fst yd else of_int padding)]),
                    (''width'', [Num (of_int (width - padding) - of_int padding)]),
                    (''height'', [Num (if ih then fst yd - of_int padding
                                       else of_int (height - padding) - fst yd)]),
                    (''fill'', [Lit ''grey''])] None [])))"
    unfolding res
    by (cases ?L)
      (simp_all add: bindE_def highlight_of_svg_tree highlight_rect_def draw_region_of_def)
  from 1 2 3 4 5 6 show ?thesis by blast
qed

theorem inversion_flags_orthogonal_witness:
  "map_sum id highlight_of
     (snd (snd (generate_svg (sconst True) False
        [(''A'', [(0, 14), (2, 64)]), (''B'', [(1, 200), (2, 500)])]
        1448 1072 50 (Some True) 257 (Some False) None True True)))
   = Inr (Some (Element ''rect''
       [(''x'', [Num 50]), (''y'', [Num 50]), (''width'', [Num 1348]), (''height'', [Num 486]),
        (''fill'', [Lit ''grey''])] None []))
   \<and> map_sum id highlight_of
     (snd (snd (generate_svg (sconst True) False
        [(''A'', [(0, 14), (2, 64)]), (''B'', [(1, 200), (2, 500)])]
        1448 1072 50 (Some True) 257 (Some True) None True True)))
   = Inr (Some (Element ''rect''
       [(''x'', [Num 50]), (''y'', [Num 536]), (''width'', [Num 1348]), (''height'', [Num 486]),
        (''fill'', [Lit ''grey''])] None []))"
proof -
  let ?d = "[(''A'', [(0, 14), (2, 64)]), (''B'', [(1, 200), (2, 500)])] :: snapshot"
  have l: "layout_data False ?d 1448 1072 50 257 (snd (check_source ?d None)) True
         = Inr (536, [(''A'', [(50, 50), (1398, 150)]), (''B'', [(724, 422), (1398, 1022)])])"
    by (simp add: layout_data_def check_source_def filter_source_def get_data_region_def
        all_points_def bindE_def normalise_data_def normalise_point_def normalise_def
        scale_y_def draw_region_of_def)
  show ?thesis
    using inversion_flags_orthogonal [of "sconst True" False ?d 1448 1072 50 True 257 False
        None True True]
      inversion_flags_orthogonal [of "sconst True" False ?d 1448 1072 50 True 257 True
        None True True]
    by (simp add: l)
qed

subsection \<open>Filtering before or after the normalisation\<close>

lemma normalise_data_lookup:
  "normalise_data d r dr = Inr d2 \<Longrightarrow> map_of d s = Some pts \<Longrightarrow>
   \<exists>qs. map_of d2 s = Some qs \<and> mapE (normalise_point r dr) pts = Inr qs"
proof (induction d arbitrary: d2)
  case Nil
  then show ?case by simp
next
  case (Cons kv d)
  from Cons.prems(1) obtain ps rest where
    ps: "mapE (normalise_point r dr) (snd kv) = Inr ps"
    and rest: "normalise_data d r dr = Inr rest"
    and d2: "d2 = (fst kv, ps) # rest"
    by (auto simp: normalise_data_def bindE_def split: sum.splits)
  show ?case
  proof (cases "fst kv = s")
    case True
    then have "pts = snd kv" using Cons.prems(2) by (cases kv) simp
    then show ?thesis using True ps d2 by simp
  next
    case False
    then have "map_of d s = Some pts" using Cons.prems(2) by (cases kv) simp
    from Cons.IH [OF rest this] show ?thesis using False d2 by simp
  qed
qed

text \<open>
  For a present filter with a non-empty name: the extent \<open>r\<close> is that of the whole snapshot
  in the default mode and that of the single channel when the filter comes first; the
  threshold and the points of the channel are normalised with \<open>r\<close>, and the channel is the
  only one left to draw.
\<close>

lemma filter_modes_nonempty_name:
  assumes s: "map_of d s = Some pts" "s \<noteq> []"
      and r: "get_data_region (if normalise_before_filter then d else [(s, pts)]) = Inr r"
      and nx: "min_x r \<noteq> max_x r" and ny: "min_y r \<noteq> max_y r"
      and hp: "lg \<longrightarrow> 0 < highlight_power"
  shows "\<exists>v yh qs.
           layout_data lg d width height padding highlight_power (Some s) normalise_before_filter
             = Inr (yh, [(s, qs)])
         \<and> scale_y lg highlight_power = Inr v
         \<and> normalise v (min_y r) (max_y r) (of_int padding) (of_int (height - padding)) = Inr yh
         \<and> mapE (normalise_point r (draw_region_of width height padding)) pts = Inr qs"
proof -
  let ?dr = "draw_region_of width height padding"
  let ?d1 = "if normalise_before_filter then d else [(s, pts)]"
  have d1: "filter_source (\<not> normalise_before_filter) (Some s) d = Inr ?d1"
    using s by (simp add: filter_source_def dict_get_def bindE_def)
  from hp have "\<exists>v. scale_y lg highlight_power = Inr v"
    by (cases lg) (simp_all add: scale_y_def)
  then obtain v where v: "scale_y lg highlight_power = Inr v" ..
  from ny obtain yh where
    yh: "normalise v (min_y r) (max_y r) (min_y ?dr) (max_y ?dr) = Inr yh"
    by (auto simp: normalise_def)
  from normalise_data_total [OF nx ny] obtain d2 where
    d2: "normalise_data ?d1 r ?dr = Inr d2" by blast
  have "map_of ?d1 s = Some pts" using s(1) by simp
  from normalise_data_lookup [OF d2 this] obtain qs where
    qs: "map_of d2 s = Some qs" "mapE (normalise_point r ?dr) pts = Inr qs" by blast
  have d3: "filter_source normalise_before_filter (Some s) d2 = Inr [(s, qs)]"
  proof (cases normalise_before_filter)
    case True
    then show ?thesis using qs(1) s(2) by (simp add: filter_source_def dict_get_def bindE_def)
  next
    case False
    then have "d2 = [(s, qs)]"
      using d2 qs(2) by (simp add: normalise_data_def bindE_def)
    then show ?thesis using False by (simp add: filter_source_def)
  qed
  have "layout_data lg d width height padding highlight_power (Some s) normalise_before_filter
          = Inr (yh, [(s, qs)])"
    by (simp add: layout_data_def Let_def bindE_def d1 r v yh d2 d3)
  moreover have "normalise v (min_y r) (max_y r) (of_int padding) (of_int (height - padding))
          = Inr yh"
    using yh by (simp add: draw_region_of_def)
  ultimately show ?thesis using v qs(2) by blast
qed

text \<open>
  Claim C6 says that, when a present filter channel is requested, the extent is computed
  over the whole snapshot in the default mode and over the filtered channel when
  filter-before-normalise is requested, and that in both modes only the polyline of that
  channel is drawn. Lines 166 and 188 test the truth value of \<open>only_source\<close>, where lines 162
  and 230 compare it with \<open>None\<close>: a present channel whose name is the empty string is
  not filtered in either mode. Here the extent of the filter-first call is that of the
  whole snapshot, not that of the channel, and both calls draw two polylines.
\<close>

theorem empty_name_filter_ignored:
  "data_extent [('''', [(0, 10), (1, 20)]), (''B'', [(0, 200), (2, 400)])] (Some '''') False
     = Inr \<lparr>min_x = 0, min_y = 10, max_x = 2, max_y = 400\<rparr>
   \<and> get_data_region [('''', [(0, 10), (1, 20)])]
     = Inr \<lparr>min_x = 0, min_y = 10, max_x = 1, max_y = 20\<rparr>
   \<and> map_sum id (count_tag ''polyline'')
        (snd (snd (generate_svg (sconst True) False
           [('''', [(0, 10), (1, 20)]), (''B'', [(0, 200), (2, 400)])]
           1448 1072 50 (Some False) 1000 (Some False) (Some '''') False True))) = Inr 2
   \<and> map_sum id (count_tag ''polyline'')
        (snd (snd (generate_svg (sconst True) False
           [('''', [(0, 10), (1, 20)]), (''B'', [(0, 200), (2, 400)])]
           1448 1072 50 (Some False) 1000 (Some False) (Some '''') True True))) = Inr 2"
  by (simp add: generate_svg_result count_polyline_svg_tree data_extent_def layout_data_def
      check_source_def filter_source_def get_data_region_def all_points_def bindE_def
      normalise_data_def normalise_point_def normalise_def scale_y_def draw_region_of_def)

subsection \<open>The conversion of the payload\<close>

lemma mapE_error_cases:
  "(\<And>x. x \<in> set xs \<Longrightarrow> f x = Inl e \<or> (\<exists>y. f x = Inr y)) \<Longrightarrow>
   mapE f xs = Inl e \<or> (\<exists>ys. mapE f xs = Inr ys)"
proof (induction xs)
  case Nil
  show ?case by simp
next
  case (Cons x xs)
  have "f x = Inl e \<or> (\<exists>y. f x = Inr y)" using Cons.prems by simp
  moreover have "mapE f xs = Inl e \<or> (\<exists>ys. mapE f xs = Inr ys)"
    using Cons.IH Cons.prems by simp
  ultimately show ?case by (auto simp: bindE_def)
qed

lemma mapE_raises:
  "(\<And>x. x \<in> set xs \<Longrightarrow> f x = Inl e \<or> (\<exists>y. f x = Inr y)) \<Longrightarrow>
   \<exists>x \<in> set xs. f x = Inl e \<Longrightarrow> mapE f xs = Inl e"
proof (induction xs)
  case Nil
  then show ?case by simp
next
  case (Cons x xs)
  show ?case
  proof (cases "f x")
    case (Inl e')
    then have "e' = e" using Cons.prems(1) [of x] by simp
    then show ?thesis using Inl by (simp add: bindE_def)
  next
    case (Inr y)
    then have "\<exists>x \<in> set xs. f x = Inl e" using Cons.prems(2) by auto
    then have "mapE f xs = Inl e" using Cons.IH Cons.prems(1) by simp
    then show ?thesis using Inr by (simp add: bindE_def)
  qed
qed

lemma sensor_point_eq:
  "i < length p \<Longrightarrow>
   sensor_point lg i p =
     (if lg \<and> p ! i \<le> 0 then Inl ValueError
      else Inr (p ! 0, if lg then ln (p ! i) else p ! i))"
  by (cases p) (simp_all add: sensor_point_def index_def scale_y_def bindE_def)

lemma column_cases:
  assumes "list_all (\<lambda>r. length r = n) rs" and "i < n"
  shows "mapE (sensor_point lg i) rs = Inl ValueError \<or> (\<exists>c. mapE (sensor_point lg i) rs = Inr c)"
proof (rule mapE_error_cases)
  fix p assume "p \<in> set rs"
  then have "i < length p" using assms by (auto simp: list_all_iff)
  then show "sensor_point lg i p = Inl ValueError \<or> (\<exists>y. sensor_point lg i p = Inr y)"
    by (simp add: sensor_point_eq)
qed

lemma columns_cases:
  assumes "list_all (\<lambda>r. length r = n) rs"
  shows "mapE (\<lambda>i. mapE (sensor_point lg i) rs) [1..<n] = Inl ValueError
       \<or> (\<exists>cs. mapE (\<lambda>i. mapE (sensor_point lg i) rs) [1..<n] = Inr cs)"
  by (rule mapE_error_cases) (simp add: column_cases [OF assms])

lemma columns_linear:
  assumes "list_all (\<lambda>r. length r = n) rs"
  shows "mapE (\<lambda>i. mapE (sensor_point False i) rs) [1..<n]
       = Inr (map (\<lambda>i. map (\<lambda>p. (p ! 0, p ! i)) rs) [1..<n])"
proof (rule mapE_map)
  fix i assume "i \<in> set [1..<n]"
  then have i: "i < n" by simp
  show "mapE (sensor_point False i) rs = Inr (map (\<lambda>p. (p ! 0, p ! i)) rs)"
  proof (rule mapE_map)
    fix p assume "p \<in> set rs"
    then have "i < length p" using assms i by (auto simp: list_all_iff)
    then show "sensor_point False i p = Inr (p ! 0, p ! i)" by (simp add: sensor_point_eq)
  qed
qed

lemma convert_checked:
  assumes "json_labels raw = ''Time'' # ls" and "json_data raw = row # rows"
      and "list_all (\<lambda>r. length r = length row) rows"
  shows "convert_sensor_data lg raw =
           bindE (mapE (\<lambda>i. mapE (sensor_point lg i) (row # rows)) [1..<length row])
             (\<lambda>points. Inr (dict_of (zip ls points)))"
  using assms by (simp add: convert_sensor_data_def index_def bindE_def Let_def)

lemma convert_no_labels: "json_labels raw = [] \<Longrightarrow> convert_sensor_data lg raw = Inl IndexError"
  by (simp add: convert_sensor_data_def index_def bindE_def Let_def)

lemma convert_not_Time:
  "json_labels raw = l # ls \<Longrightarrow> l \<noteq> ''Time'' \<Longrightarrow>
   convert_sensor_data lg raw = Inl (Exception ''Time not first element'')"
  by (simp add: convert_sensor_data_def index_def bindE_def Let_def)

lemma convert_no_rows:
  "json_labels raw = ''Time'' # ls \<Longrightarrow> json_data raw = [] \<Longrightarrow>
   convert_sensor_data lg raw = Inl IndexError"
  by (simp add: convert_sensor_data_def index_def bindE_def Let_def)

lemma convert_ragged:
  "json_labels raw = ''Time'' # ls \<Longrightarrow> json_data raw = row # rows \<Longrightarrow>
   \<not> list_all (\<lambda>r. length r = length row) rows \<Longrightarrow>
   convert_sensor_data lg raw = Inl (Exception ''Data not all at the same length'')"
  by (simp add: convert_sensor_data_def index_def bindE_def Let_def)

lemma convert_checked_cases:
  assumes "json_labels raw = ''Time'' # ls" and "json_data raw = row # rows"
      and "list_all (\<lambda>r. length r = length row) rows"
  shows "convert_sensor_data lg raw = Inl ValueError \<or> (\<exists>snap. convert_sensor_data lg raw = Inr snap)"
proof -
  have "list_all (\<lambda>r. length r = length row) (row # rows)" using assms(3) by simp
  from columns_cases [OF this, of lg] show ?thesis
    unfolding convert_checked [OF assms] by (auto simp: bindE_def)
qed

text \<open>
  Claim C5. In logarithmic mode, a payload that passes the checks of \<open>convert_sensor_data\<close>
  and holds a zero or negative reading in some value column makes the conversion raise
  the \<open>ValueError\<close> of \<open>math.log\<close> (its domain error). The conversion applies \<open>scale_y\<close> to every
  reading before \<open>generate_svg\<close> is entered: nothing is printed, the random generator is
  not read, and no element is built.
\<close>

theorem logarithmic_nonpositive_raises:
  assumes "json_labels raw = ''Time'' # ls" and "json_data raw = row # rows"
      and "list_all (\<lambda>r. length r = length row) rows"
      and "p \<in> set (row # rows)" and "1 \<le> i" and "i < length p" and "p ! i \<le> 0"
  shows "convert_sensor_data True raw = Inl ValueError
       \<and> render rnd True raw width height padding invert highlight_power invert_highlight
           only_source normalise_before_filter rotate_flag = (rnd, [], Inl ValueError)"
proof -
  have all: "list_all (\<lambda>r. length r = length row) (row # rows)" using assms(3) by simp
  then have len: "length p = length row" using assms(4) by (auto simp: list_all_iff)
  have "sensor_point True i p = Inl ValueError"
    using assms(6,7) by (simp add: sensor_point_eq)
  then have "\<exists>q \<in> set (row # rows). sensor_point True i q = Inl ValueError"
    using assms(4) by blast
  then have col: "mapE (sensor_point True i) (row # rows) = Inl ValueError"
  proof (rule mapE_raises [rotated])
    fix q assume "q \<in> set (row # rows)"
    then have "i < length q" using all assms(6) len by (auto simp: list_all_iff)
    then show "sensor_point True i q = Inl ValueError \<or> (\<exists>y. sensor_point True i q = Inr y)"
      by (simp add: sensor_point_eq)
  qed
  have "i \<in> set [1..<length row]" using assms(5,6) len by simp
  with col have "\<exists>j \<in> set [1..<length row].
      mapE (sensor_point True j) (row # rows) = Inl ValueError" by blast
  then have "mapE (\<lambda>j. mapE (sensor_point True j) (row # rows)) [1..<length row]
      = Inl ValueError"
  proof (rule mapE_raises [rotated])
    fix j assume "j \<in> set [1..<length row]"
    then have "j < length row" by simp
    from column_cases [OF all this]
    show "mapE (sensor_point True j) (row # rows) = Inl ValueError
        \<or> (\<exists>y. mapE (sensor_point True j) (row # rows) = Inr y)" .
  qed
  then have "convert_sensor_data True raw = Inl ValueError"
    unfolding convert_checked [OF assms(1-3)] by (simp add: bindE_def)
  then show ?thesis by (simp add: render_def)
qed

theorem logarithmic_nonpositive_raises_witness:
  "convert_sensor_data True
     \<lparr>json_labels = [''Time'', ''A'', ''B''], json_data = [[0, 10, 200], [1, 0, 400]]\<rparr>
   = Inl ValueError
   \<and> render (sconst True) True
       \<lparr>json_labels = [''Time'', ''A'', ''B''], json_data = [[0, 10, 200], [1, 0, 400]]\<rparr>
       1448 1072 50 (Some False) 1000 (Some False) None True True
     = (sconst True, [], Inl ValueError)"
  using logarithmic_nonpositive_raises [of
      "\<lparr>json_labels = [''Time'', ''A'', ''B''], json_data = [[0, 10, 200], [1, 0, 400]]\<rparr>"
      "[''A'', ''B'']" "[0, 10, 200]" "[[1, 0, 400]]" "[1, 0, 400]" 1 "sconst True"
      1448 1072 50 "Some False" 1000 "Some False" None True True]
  by simp

lemma dict_of_Nil: "dict_of [] = []"
  by (simp add: dict_of_def)

lemma generate_svg_no_channels:
  "snd (snd (generate_svg rnd lg [] width height padding invert highlight_power
               invert_highlight only_source normalise_before_filter rotate_flag))
   = Inl ValueError"
  by (simp add: generate_svg_result check_source_def layout_data_def filter_source_def
      get_data_region_empty all_points_def bindE_def split: option.splits)

text \<open>
  Claim C9, as amended. \<open>convert_sensor_data\<close> raises one of its two \<open>Exception\<close>s exactly
  when there is a first label and either it is not \<open>Time\<close> or there is a first row and some
  row differs from it in length. It raises \<open>IndexError\<close> exactly when there is no label, or
  the first label is \<open>Time\<close> and there is no row. A payload with no channel (no label after
  \<open>Time\<close>, or rows of at most one entry) passes both checks and converts to the empty
  snapshot; the render then fails in \<open>get_data_region\<close> with the \<open>ValueError\<close> of \<open>min()\<close>.
  In each case the exception is the result of the call: nothing catches or retries.
\<close>

theorem validation_errors:
  "((\<exists>msg. convert_sensor_data lg raw = Inl (Exception msg)) \<longleftrightarrow>
      (\<exists>l ls. json_labels raw = l # ls
         \<and> (l \<noteq> ''Time''
            \<or> (\<exists>row rows. json_data raw = row # rows
                  \<and> \<not> list_all (\<lambda>r. length r = length row) rows))))
   \<and> (convert_sensor_data lg raw = Inl IndexError \<longleftrightarrow>
        json_labels raw = [] \<or> (\<exists>ls. json_labels raw = ''Time'' # ls \<and> json_data raw = []))
   \<and> ((\<exists>ls row rows. json_labels raw = ''Time'' # ls \<and> json_data raw = row # rows
          \<and> list_all (\<lambda>r. length r = length row) rows \<and> (ls = [] \<or> length row \<le> 1)) \<longrightarrow>
        convert_sensor_data False raw = Inr []
        \<and> snd (snd (render rnd False raw width height padding invert highlight_power
                       invert_highlight only_source normalise_before_filter rotate_flag))
            = Inl ValueError)"
proof (intro conjI impI)
  show "(\<exists>msg. convert_sensor_data lg raw = Inl (Exception msg)) \<longleftrightarrow>
      (\<exists>l ls. json_labels raw = l # ls
         \<and> (l \<noteq> ''Time''
            \<or> (\<exists>row rows. json_data raw = row # rows
                  \<and> \<not> list_all (\<lambda>r. length r = length row) rows)))"
  proof (cases "json_labels raw")
    case Nil
    then show ?thesis by (simp add: convert_no_labels)
  next
    case (Cons l ls)
    show ?thesis
    proof (cases "l = ''Time''")
      case False
      then show ?thesis using Cons by (simp add: convert_not_Time)
    next
      case True
      then have lab: "json_labels raw = ''Time'' # ls" using Cons by simp
      show ?thesis
      proof (cases "json_data raw")
        case Nil
        then show ?thesis using lab by (simp add: convert_no_rows)
      next
        case (Cons row rows)
        show ?thesis
        proof (cases "list_all (\<lambda>r. length r = length row) rows")
          case False
          then show ?thesis using lab Cons by (simp add: convert_ragged)
        next
          case True
          from convert_checked_cases [OF lab Cons True, of lg]
          show ?thesis using lab Cons True by auto
        qed
      qed
    qed
  qed
next
  show "convert_sensor_data lg raw = Inl IndexError \<longleftrightarrow>
        json_labels raw = [] \<or> (\<exists>ls. json_labels raw = ''Time'' # ls \<and> json_data raw = [])"
  proof (cases "json_labels raw")
    case Nil
    then show ?thesis by (simp add: convert_no_labels)
  next
    case (Cons l ls)
    show ?thesis
    proof (cases "l = ''Time''")
      case False
      then show ?thesis using Cons by (simp add: convert_not_Time)
    next
      case True
      then have lab: "json_labels raw = ''Time'' # ls" using Cons by simp
      show ?thesis
      proof (cases "json_data raw")
        case Nil
        then show ?thesis using lab by (simp add: convert_no_rows)
      next
        case (Cons row rows)
        show ?thesis
        proof (cases "list_all (\<lambda>r. length r = length row) rows")
          case False
          then show ?thesis using lab Cons by (simp add: convert_ragged)
        next
          case True
          from convert_checked_cases [OF lab Cons True, of lg]
          show ?thesis using lab Cons by auto
        qed
      qed
    qed
  qed
next
  assume "\<exists>ls row rows. json_labels raw = ''Time'' # ls \<and> json_data raw = row # rows
          \<and> list_all (\<lambda>r. length r = length row) rows \<and> (ls = [] \<or> length row \<le> 1)"
  then obtain ls row rows where lab: "json_labels raw = ''Time'' # ls"
    and dat: "json_data raw = row # rows"
    and eq: "list_all (\<lambda>r. length r = length row) rows"
    and z: "ls = [] \<or> length row \<le> 1" by blast
  have "list_all (\<lambda>r. length r = length row) (row # rows)" using eq by simp
  from columns_linear [OF this]
  have "convert_sensor_data False raw =
      Inr (dict_of (zip ls (map (\<lambda>i. map (\<lambda>p. (p ! 0, p ! i)) (row # rows)) [1..<length row])))"
    unfolding convert_checked [OF lab dat eq] by (simp add: bindE_def)
  then show c: "convert_sensor_data False raw = Inr []"
    using z by (auto simp: dict_of_Nil)
  show "snd (snd (render rnd False raw width height padding invert highlight_power
                    invert_highlight only_source normalise_before_filter rotate_flag))
        = Inl ValueError"
    by (simp add: render_def c generate_svg_no_channels)
qed

theorem validation_errors_witness:
  "convert_sensor_data False \<lparr>json_labels = [''Power'', ''A''], json_data = [[0, 1]]\<rparr>
     = Inl (Exception ''Time not first element'')
   \<and> convert_sensor_data False \<lparr>json_labels = [''Time'', ''A''], json_data = [[0, 1], [1]]\<rparr>
     = Inl (Exception ''Data not all at the same length'')
   \<and> convert_sensor_data False \<lparr>json_labels = [], json_data = [[0, 1]]\<rparr> = Inl IndexError
   \<and> snd (snd (render (sconst True) False \<lparr>json_labels = [''Time''], json_data = [[0], [1]]\<rparr>
                 1448 1072 50 (Some False) 1000 (Some False) None True True)) = Inl ValueError"
proof -
  have a: "\<exists>msg. convert_sensor_data False
        \<lparr>json_labels = [''Power'', ''A''], json_data = [[0, 1]]\<rparr> = Inl (Exception msg)"
    using validation_errors [of False
        "\<lparr>json_labels = [''Power'', ''A''], json_data = [[0, 1]]\<rparr>"]
    by simp
  have b: "\<exists>msg. convert_sensor_data False
        \<lparr>json_labels = [''Time'', ''A''], json_data = [[0, 1], [1]]\<rparr> = Inl (Exception msg)"
    using validation_errors [of False
        "\<lparr>json_labels = [''Time'', ''A''], json_data = [[0, 1], [1]]\<rparr>"]
    by simp
  have c: "convert_sensor_data False \<lparr>json_labels = [], json_data = [[0, 1]]\<rparr> = Inl IndexError"
    using validation_errors [of False "\<lparr>json_labels = [], json_data = [[0, 1]]\<rparr>"]
    by simp
  have e: "snd (snd (render (sconst True) False
        \<lparr>json_labels = [''Time''], json_data = [[0], [1]]\<rparr>
        1448 1072 50 (Some False) 1000 (Some False) None True True)) = Inl ValueError"
    using validation_errors [of False "\<lparr>json_labels = [''Time''], json_data = [[0], [1]]\<rparr>"
        "sconst True" 1448 1072 50 "Some False" 1000 "Some False" None True True]
    by simp
  from a b c e show ?thesis
    by (auto simp: convert_sensor_data_def index_def bindE_def Let_def)
qed

text \<open>
  Claim C9, as stated, fails: a payload with zero channels is converted without any error.
\<close>

theorem validation_errors_counterexample:
  "convert_sensor_data False \<lparr>json_labels = [''Time''], json_data = [[0], [1]]\<rparr> = Inr []"
  by (simp add: convert_sensor_data_def index_def bindE_def Let_def dict_of_def)

subsection \<open>Labels and columns\<close>

lemma update_fresh: "k \<notin> fst ` set al \<Longrightarrow> AList.update k v al = al @ [(k, v)]"
  by (induction al) auto

lemma foldl_dict_set_keys:
  "fst ` set (foldl dict_set acc ps) = fst ` set acc \<union> fst ` set ps"
  by (induction ps arbitrary: acc) (auto simp: dict_set_def dom_update)

lemma foldl_dict_set_distinct:
  "distinct (map fst acc) \<Longrightarrow> distinct (map fst (foldl dict_set acc ps))"
  by (induction ps arbitrary: acc) (simp_all add: dict_set_def distinct_update)

lemma foldl_dict_set_fresh:
  "distinct (map fst (acc @ ps)) \<Longrightarrow> foldl dict_set acc ps = acc @ ps"
proof (induction ps arbitrary: acc)
  case Nil
  show ?case by simp
next
  case (Cons kv ps)
  have fresh: "fst kv \<notin> fst ` set acc" using Cons.prems by auto
  have "dict_set acc kv = acc @ [kv]"
    using update_fresh [OF fresh, of "snd kv"] by (simp add: dict_set_def)
  moreover have "distinct (map fst ((acc @ [kv]) @ ps))" using Cons.prems by simp
  ultimately show ?case using Cons.IH [of "acc @ [kv]"] by simp
qed

lemma dict_of_keys: "set (map fst (dict_of ps)) = set (map fst ps)"
  using foldl_dict_set_keys [of "[]" ps] by (simp add: dict_of_def)

lemma dict_of_distinct: "distinct (map fst (dict_of ps))"
  using foldl_dict_set_distinct [of "[]" ps] by (simp add: dict_of_def)

lemma dict_of_length: "length (dict_of ps) = card (set (map fst ps))"
proof -
  have "length (dict_of ps) = length (map fst (dict_of ps))" by simp
  also have "\<dots> = card (set (map fst (dict_of ps)))"
    using dict_of_distinct [of ps] by (simp only: distinct_card)
  finally show ?thesis by (simp only: dict_of_keys)
qed

lemma dict_of_fresh: "distinct (map fst ps) \<Longrightarrow> dict_of ps = ps"
  using foldl_dict_set_fresh [of "[]" ps] by (simp add: dict_of_def)

lemma int_min_pred: "0 < n \<Longrightarrow> int (min m (n - 1)) = min (int m) (int n - 1)"
  by (cases n) (simp_all add: min_def)

text \<open>
  Claim C10, as amended. A payload that passes both checks converts without error in linear
  mode, whether or not the number of labels agrees with the width of the rows. The keys of
  the snapshot are the distinct names among the first \<open>min (len(labels) - 1) (row_length -
  1)\<close> labels after \<open>Time\<close>. When these names are pairwise distinct, the snapshot pairs
  them in order with the columns 1, 2, ... and, for non-empty rows, has exactly
  \<open>min (len(labels) - 1) (row_length - 1)\<close> channels: surplus labels and surplus columns are
  dropped.
\<close>

theorem label_pairing:
  assumes "json_labels raw = ''Time'' # ls" and "json_data raw = row # rows"
      and "list_all (\<lambda>r. length r = length row) rows"
  shows "\<exists>snap. convert_sensor_data False raw = Inr snap
           \<and> is_dict snap
           \<and> set (map fst snap) = set (take (length row - 1) ls)
           \<and> length snap = card (set (take (length row - 1) ls))
           \<and> (distinct (take (length row - 1) ls) \<longrightarrow>
                snap = zip ls (map (\<lambda>i. map (\<lambda>p. (p ! 0, p ! i)) (row # rows)) [1..<length row])
                \<and> (row \<noteq> [] \<longrightarrow>
                     int (length snap)
                       = min (int (length (json_labels raw)) - 1) (int (length row) - 1)))"
proof -
  let ?cols = "map (\<lambda>i. map (\<lambda>p. (p ! 0, p ! i)) (row # rows)) [1..<length row]"
  let ?snap = "dict_of (zip ls ?cols)"
  have "list_all (\<lambda>r. length r = length row) (row # rows)" using assms(3) by simp
  from columns_linear [OF this]
  have conv: "convert_sensor_data False raw = Inr ?snap"
    unfolding convert_checked [OF assms] by (simp add: bindE_def)
  have keys: "map fst (zip ls ?cols) = take (length row - 1) ls"
    by (simp add: map_fst_zip_take min_def)
  have 1: "is_dict ?snap" unfolding is_dict_def by (rule dict_of_distinct)
  have 2: "set (map fst ?snap) = set (take (length row - 1) ls)"
    by (simp only: dict_of_keys keys)
  have 3: "length ?snap = card (set (take (length row - 1) ls))"
    by (simp only: dict_of_length keys)
  have 4: "?snap = zip ls ?cols" if "distinct (take (length row - 1) ls)"
    using that keys by (simp only: dict_of_fresh)
  have 5: "int (length ?snap) = min (int (length (json_labels raw)) - 1) (int (length row) - 1)"
    if "distinct (take (length row - 1) ls)" and "row \<noteq> []"
  proof -
    have n: "length ?snap = min (length ls) (length row - 1)"
      using 4 [OF that(1)] by simp
    have pos: "0 < length row" using that(2) by simp
    from int_min_pred [OF pos]
    show ?thesis using n assms(1) by simp
  qed
  from conv 1 2 3 4 5 show ?thesis by blast
qed

theorem label_pairing_witness:
  "convert_sensor_data False
     \<lparr>json_labels = [''Time'', ''A'', ''B'', ''C''], json_data = [[0, 1, 2], [1, 3, 4]]\<rparr>
   = Inr [(''A'', [(0, 1), (1, 3)]), (''B'', [(0, 2), (1, 4)])]"
proof -
  let ?raw = "\<lparr>json_labels = [''Time'', ''A'', ''B'', ''C''],
               json_data = [[0, 1, 2], [1, 3, 4 :: real]]\<rparr>"
  have u: "[1..<3] = [1, 2]" by (simp add: upt_rec)
  from label_pairing [of ?raw "[''A'', ''B'', ''C'']" "[0, 1, 2]" "[[1, 3, 4]]"]
  show ?thesis by (simp add: u)
qed

text \<open>
  Claim C10, as stated, fails when a label is repeated: four labels against rows of width
  three give one channel, not \<open>min (4 - 1) (3 - 1) = 2\<close>.
\<close>

theorem label_pairing_counterexample:
  "convert_sensor_data False
     \<lparr>json_labels = [''Time'', ''A'', ''A'', ''B''], json_data = [[0, 1, 2]]\<rparr>
   = Inr [(''A'', [(0, 2)])]"
proof -
  have u: "[1..<3] = [1, 2]" by (simp add: upt_rec)
  show ?thesis
    by (simp add: convert_sensor_data_def index_def bindE_def Let_def dict_of_def dict_set_def
        sensor_point_def scale_y_def u)
qed

end
